theory Spec2Isabelle
  imports Main
begin

section \<open>JavaScript strings and arrays\<close>

text \<open>
  A JavaScript string is modelled as a \<^typ>\<open>string\<close> (a list of characters). The
  functions below follow \<^verbatim>\<open>String.prototype.includes\<close>, \<^verbatim>\<open>split\<close> (with a
  string separator), \<^verbatim>\<open>endsWith\<close>, \<^verbatim>\<open>replace\<close> (with a string pattern),
  \<^verbatim>\<open>trim\<close> and \<^verbatim>\<open>join\<close>. Reading an array index that is out of range gives
  \<^verbatim>\<open>undefined\<close> in JavaScript; here it gives \<open>None\<close>.
\<close>

fun startsWith :: "string \<Rightarrow> string \<Rightarrow> bool" where
  "startsWith s [] = True"
| "startsWith [] (p # ps) = False"
| "startsWith (c # cs) (p # ps) = (c = p \<and> startsWith cs ps)"

fun js_includes :: "string \<Rightarrow> string \<Rightarrow> bool" where
  "js_includes [] sub = (sub = [])"
| "js_includes (c # cs) sub = (startsWith (c # cs) sub \<or> js_includes cs sub)"

definition endsWith :: "string \<Rightarrow> string \<Rightarrow> bool" where
  "endsWith s suf = startsWith (rev s) (rev suf)"

text \<open>
  \<open>split_first sep s\<close> cuts \<open>s\<close> at the leftmost occurrence of \<open>sep\<close>: the text
  before it and the text after it.
\<close>

fun split_first :: "string \<Rightarrow> string \<Rightarrow> (string \<times> string) option" where
  "split_first sep [] = (if sep = [] then Some ([], []) else None)"
| "split_first sep (c # cs) =
     (if startsWith (c # cs) sep then Some ([], drop (length sep) (c # cs))
      else (case split_first sep cs of
              None \<Rightarrow> None
            | Some (a, b) \<Rightarrow> Some (c # a, b)))"

lemma startsWith_length: "startsWith s p \<Longrightarrow> length p \<le> length s"
  by (induction s p rule: startsWith.induct) auto

lemma split_first_length:
  "split_first sep s = Some (a, b) \<Longrightarrow> length a + length sep + length b = length s"
proof (induction s arbitrary: a b)
  case Nil
  then show ?case by (simp split: if_splits)
next
  case (Cons c cs)
  show ?case
  proof (cases "startsWith (c # cs) sep")
    case True
    have "length sep \<le> length (c # cs)" using True
      by (rule startsWith_length)
    with True Cons.prems show ?thesis by auto
  next
    case False
    with Cons.prems obtain a' where s: "split_first sep cs = Some (a', b)" and a: "a = c # a'"
      by (auto split: option.splits)
    from Cons.IH [OF s] a show ?thesis by simp
  qed
qed

function js_split :: "string \<Rightarrow> string \<Rightarrow> string list" where
  "js_split sep s =
     (if sep = [] then map (\<lambda>c. [c]) s
      else (case split_first sep s of
              None \<Rightarrow> [s]
            | Some (a, b) \<Rightarrow> a # js_split sep b))"
  by pat_completeness auto
termination
proof (relation "measure (\<lambda>(sep, s). length s)")
  show "wf (measure (\<lambda>(sep, s). length s))" by simp
next
  fix sep s :: string and x2 a b
  assume "sep \<noteq> []" and "split_first sep s = Some x2" and "(a, b) = x2"
  then have "length a + length sep + length b = length s"
    using split_first_length [of sep s a b] by simp
  with \<open>sep \<noteq> []\<close> show "((sep, b), (sep, s)) \<in> measure (\<lambda>(sep, s). length s)"
    by (cases sep) auto
qed

declare js_split.simps [simp del]

definition nth_opt :: "'a list \<Rightarrow> nat \<Rightarrow> 'a option" where
  "nth_opt xs i = (if i < length xs then Some (xs ! i) else None)"

fun js_join :: "string \<Rightarrow> string list \<Rightarrow> string" where
  "js_join sep [] = []"
| "js_join sep [x] = x"
| "js_join sep (x # y # ys) = x @ sep @ js_join sep (y # ys)"

text \<open>
  A text stands for the UTF-8 encoding of the JavaScript string. The code points that
  \<^verbatim>\<open>trim\<close> strips and that \<^verbatim>\<open>\s\<close> matches in a regular expression are the
  white space and line terminator code points U+0009 to U+000D, U+0020, U+00A0, U+1680,
  U+2000 to U+200A, U+2028, U+2029, U+202F, U+205F, U+3000 and U+FEFF; \<open>white_space\<close>
  lists their encodings.
\<close>

definition white_space :: "string list" where
  "white_space =
     [[CHR 0x09], [CHR 0x0A], [CHR 0x0B], [CHR 0x0C], [CHR 0x0D], [CHR 0x20],
      [CHR 0xC2, CHR 0xA0], [CHR 0xE1, CHR 0x9A, CHR 0x80]]
     @ map (\<lambda>b. [CHR 0xE2, CHR 0x80, b])
         [CHR 0x80, CHR 0x81, CHR 0x82, CHR 0x83, CHR 0x84, CHR 0x85, CHR 0x86, CHR 0x87,
          CHR 0x88, CHR 0x89, CHR 0x8A, CHR 0xA8, CHR 0xA9, CHR 0xAF]
     @ [[CHR 0xE2, CHR 0x81, CHR 0x9F], [CHR 0xE3, CHR 0x80, CHR 0x80],
        [CHR 0xEF, CHR 0xBB, CHR 0xBF]]"

text \<open>
  The number of bytes of the white space character that a text begins with (0 when it
  begins with none), for a list \<open>ws\<close> of encodings.
\<close>

definition white_length :: "string list \<Rightarrow> string \<Rightarrow> nat" where
  "white_length ws s = (case find (startsWith s) ws of Some w \<Rightarrow> length w | None \<Rightarrow> 0)"

text \<open>
  \<open>skip_white ws n s\<close> drops \<open>n\<close> bytes and then the white space at the beginning of
  \<open>s\<close>; \<open>remove_white ws n s\<close> drops \<open>n\<close> bytes and then every white space character
  of \<open>s\<close>.
\<close>

fun skip_white :: "string list \<Rightarrow> nat \<Rightarrow> string \<Rightarrow> string" where
  "skip_white ws n [] = []"
| "skip_white ws n (c # cs) =
     (if 0 < n then skip_white ws (n - 1) cs
      else (case white_length ws (c # cs) of
              0 \<Rightarrow> c # cs
            | Suc k \<Rightarrow> skip_white ws k cs))"

fun remove_white :: "string list \<Rightarrow> nat \<Rightarrow> string \<Rightarrow> string" where
  "remove_white ws n [] = []"
| "remove_white ws n (c # cs) =
     (if 0 < n then remove_white ws (n - 1) cs
      else (case white_length ws (c # cs) of
              0 \<Rightarrow> c # remove_white ws 0 cs
            | Suc k \<Rightarrow> remove_white ws k cs))"

text \<open>White space at the end of a text is white space, read backwards, at the beginning of the reversed text.\<close>

definition trim :: "string \<Rightarrow> string" where
  "trim s = rev (skip_white (map rev white_space) 0 (rev (skip_white white_space 0 s)))"

text \<open>A \<^verbatim>\<open>Set\<close> keeps its elements in insertion order, without duplicates.\<close>

definition set_add :: "'a \<Rightarrow> 'a list \<Rightarrow> 'a list" where
  "set_add x xs = (if x \<in> set xs then xs else xs @ [x])"

datatype js_error =
    TypeError
  | ENOENT
  | EISDIR
  | ENOTDIR
  | EEXIST
  | Error string

section \<open>Change Detector: \<^verbatim>\<open>analyzeChanges\<close> of watch-and-update.js\<close>

record analysis =
  modules :: "string list"
  types :: bool
  components :: bool
  services :: bool

text \<open>
  \<^verbatim>\<open>filePath.split('/modules/')[1].split('/')[0]\<close>. Calling \<^verbatim>\<open>split\<close> on
  \<^verbatim>\<open>undefined\<close> raises a TypeError.
\<close>

definition moduleName :: "string \<Rightarrow> js_error + string" where
  "moduleName filePath =
     (case nth_opt (js_split ''/modules/'' filePath) 1 of
        None \<Rightarrow> Inl TypeError
      | Some rest \<Rightarrow>
          (case nth_opt (js_split ''/'' rest) 0 of
             None \<Rightarrow> Inl TypeError
           | Some name \<Rightarrow> Inr name))"

text \<open>One iteration of the loop over the paths.\<close>

definition analyzeStep :: "analysis \<Rightarrow> string \<Rightarrow> js_error + analysis" where
  "analyzeStep a filePath =
     (case (if js_includes filePath ''/modules/''
            then (case moduleName filePath of
                    Inl e \<Rightarrow> Inl e
                  | Inr name \<Rightarrow> Inr (a\<lparr>modules := set_add name (modules a)\<rparr>))
            else Inr a) of
        Inl e \<Rightarrow> Inl e
      | Inr a1 \<Rightarrow>
          (let a2 = (if js_includes filePath ''generated.d.ts'' then a1\<lparr>types := True\<rparr> else a1);
               a3 = (if js_includes filePath ''/components/'' then a2\<lparr>components := True\<rparr> else a2);
               a4 = (if js_includes filePath ''/services/'' then a3\<lparr>services := True\<rparr> else a3)
           in Inr a4))"

fun analyzeLoop :: "analysis \<Rightarrow> string list \<Rightarrow> js_error + analysis" where
  "analyzeLoop a [] = Inr a"
| "analyzeLoop a (filePath # rest) =
     (case analyzeStep a filePath of
        Inl e \<Rightarrow> Inl e
      | Inr a' \<Rightarrow> analyzeLoop a' rest)"

definition analyzeChanges :: "string list \<Rightarrow> js_error + analysis" where
  "analyzeChanges filePaths =
     analyzeLoop \<lparr>modules = [], types = False, components = False, services = False\<rparr> filePaths"

section \<open>Change Aggregator: \<^verbatim>\<open>ContinuousDocsUpdater\<close> of watch-and-update.js\<close>

text \<open>
  The updater runs in one thread. Its methods are modelled as functions on the state of
  the object, which also holds \<^verbatim>\<open>process.env\<close> and a trace of what the process
  has done: each line written to the console and each shell command run through
  \<^verbatim>\<open>execAsync\<close>, in order. The world outside the process is a parameter: it decides
  the outcome of each command (from everything that happened before and the environment
  variables handed to the child), the file events that the watcher delivers while a command
  is awaited, and the clock. The two timers only decide when
  \<^verbatim>\<open>processAccumulatedChanges\<close> is called; they are not part of the model.
\<close>

datatype exec_result = ExecOk string | ExecFail js_error

datatype fs_event = Change string | Add string | Unlink string

datatype log_entry =
    FileChanged string
  | FileDeleted string
  | Processing nat
  | UpdatedSuccessfully
  | ErrorProcessing js_error
  | QuickRunning
  | QuickFailed js_error
  | AIRunning
  | NoKeys
  | AIFailed js_error
  | Committed
  | CommitFailed js_error

datatype event = Log log_entry | Exec string exec_result

record world =
  exec :: "event list \<Rightarrow> (string \<rightharpoonup> string) \<Rightarrow> string \<Rightarrow> exec_result"
  arrivals :: "event list \<Rightarrow> fs_event list"
  now :: "event list \<Rightarrow> string"

record updater =
  pendingChanges :: "string list"
  isProcessing :: bool
  aiUpdateThreshold :: nat
  env :: "string \<rightharpoonup> string"
  trace :: "event list"

definition new_updater :: "(string \<rightharpoonup> string) \<Rightarrow> updater" where
  "new_updater e =
     \<lparr>pendingChanges = [], isProcessing = False, aiUpdateThreshold = 3, env = e, trace = []\<rparr>"

definition log :: "log_entry \<Rightarrow> updater \<Rightarrow> updater" where
  "log l st = st\<lparr>trace := trace st @ [Log l]\<rparr>"

definition handleFileChange :: "string \<Rightarrow> updater \<Rightarrow> updater" where
  "handleFileChange filePath st =
     (log (FileChanged filePath) st)\<lparr>pendingChanges := set_add filePath (pendingChanges st)\<rparr>"

definition handleFileDelete :: "string \<Rightarrow> updater \<Rightarrow> updater" where
  "handleFileDelete filePath st =
     (log (FileDeleted filePath) st)\<lparr>pendingChanges := set_add filePath (pendingChanges st)\<rparr>"

text \<open>The watcher's dispatch of \<^verbatim>\<open>change\<close>, \<^verbatim>\<open>add\<close> and \<^verbatim>\<open>unlink\<close>.\<close>

fun deliver :: "fs_event \<Rightarrow> updater \<Rightarrow> updater" where
  "deliver (Change p) st = handleFileChange p st"
| "deliver (Add p) st = handleFileChange p st"
| "deliver (Unlink p) st = handleFileDelete p st"

text \<open>
  \<^verbatim>\<open>await execAsync(cmd)\<close>: the command runs, and the file events that arrive before
  it has finished are handled meanwhile.
\<close>

definition execAsync :: "world \<Rightarrow> string \<Rightarrow> updater \<Rightarrow> exec_result \<times> updater" where
  "execAsync w cmd st =
     (let r = exec w (trace st) (env st) cmd;
          st1 = st\<lparr>trace := trace st @ [Exec cmd r]\<rparr>
      in (r, fold deliver (arrivals w (trace st1)) st1))"

definition env_truthy :: "string option \<Rightarrow> bool" where
  "env_truthy v = (case v of None \<Rightarrow> False | Some s \<Rightarrow> s \<noteq> [])"

definition yes_no :: "bool \<Rightarrow> string" where
  "yes_no b = (if b then ''yes'' else ''no'')"

definition detailedMessage :: "string \<Rightarrow> analysis \<Rightarrow> string \<Rightarrow> string" where
  "detailedMessage message a timestamp =
     message @ ''\<newline>\<newline>Modules updated: ''
       @ (if js_join '', '' (modules a) \<noteq> [] then js_join '', '' (modules a) else ''none'')
       @ ''\<newline>Types updated: '' @ yes_no (types a)
       @ ''\<newline>Components updated: '' @ yes_no (components a)
       @ ''\<newline>Services updated: '' @ yes_no (services a)
       @ ''\<newline>\<newline>Auto-generated at: '' @ timestamp"

definition commitChanges :: "world \<Rightarrow> string \<Rightarrow> analysis \<Rightarrow> updater \<Rightarrow> updater" where
  "commitChanges w message a st =
     (case execAsync w ''git status --porcelain'' st of
        (ExecFail e, st1) \<Rightarrow> log (CommitFailed e) st1
      | (ExecOk stdout, st1) \<Rightarrow>
          if trim stdout \<noteq> [] then
            (let msg = detailedMessage message a (now w (trace st1)) in
             case execAsync w ''git add .'' st1 of
               (ExecFail e, st2) \<Rightarrow> log (CommitFailed e) st2
             | (ExecOk _, st2) \<Rightarrow>
                 (case execAsync w (''git commit -m \"'' @ msg @ ''\"'') st2 of
                    (ExecFail e, st3) \<Rightarrow> log (CommitFailed e) st3
                  | (ExecOk _, st3) \<Rightarrow>
                      if env st3 ''AUTO_PUSH'' = Some ''true'' then
                        (case execAsync w ''git push'' st3 of
                           (ExecFail e, st4) \<Rightarrow> log (CommitFailed e) st4
                         | (ExecOk _, st4) \<Rightarrow> log Committed st4)
                      else log Committed st3))
          else st1)"

text \<open>
  The two commit titles start with an emoji, written here as its UTF-8 bytes
  (U+1F4DD and U+1F916).
\<close>

definition quick_title :: string where
  "quick_title = [CHR 0xF0, CHR 0x9F, CHR 0x93, CHR 0x9D] @ '' Quick docs update''"

definition ai_title :: string where
  "ai_title = [CHR 0xF0, CHR 0x9F, CHR 0xA4, CHR 0x96] @ '' AI-enhanced docs update''"

definition quickUpdate :: "world \<Rightarrow> analysis \<Rightarrow> updater \<Rightarrow> updater" where
  "quickUpdate w a st =
     (let st0 = log QuickRunning st in
      case (if types a then execAsync w ''npm run sync:types'' st0 else (ExecOk [], st0)) of
        (ExecFail e, st1) \<Rightarrow> log (QuickFailed e) st1
      | (ExecOk _, st1) \<Rightarrow>
          (case execAsync w ''node scripts/generate-docs.js'' st1 of
             (ExecFail e, st2) \<Rightarrow> log (QuickFailed e) st2
           | (ExecOk _, st2) \<Rightarrow> commitChanges w quick_title a st2))"

definition aiEnhancedUpdate :: "world \<Rightarrow> analysis \<Rightarrow> updater \<Rightarrow> updater" where
  "aiEnhancedUpdate w a st =
     (let st0 = log AIRunning st in
      if \<not> env_truthy (env st0 ''ANTHROPIC_API_KEY'') \<and> \<not> env_truthy (env st0 ''OPENAI_API_KEY'')
      then log NoKeys st0
      else
        (let st1 = st0\<lparr>env := (env st0)
                      (''CHANGED_MODULES'' \<mapsto> js_join ''\<newline>'' (modules a),
                       ''TYPES_CHANGED'' \<mapsto> (if types a then ''true'' else []))\<rparr>
         in case execAsync w ''node scripts/enhance-with-ai.js'' st1 of
              (ExecFail e, st2) \<Rightarrow> log (AIFailed e) st2
            | (ExecOk _, st2) \<Rightarrow> commitChanges w ai_title a st2))"

definition processAccumulatedChanges :: "world \<Rightarrow> updater \<Rightarrow> updater" where
  "processAccumulatedChanges w st =
     (if isProcessing st \<or> length (pendingChanges st) = 0 then st
      else
        (let st1 = st\<lparr>isProcessing := True\<rparr>;
             changes = pendingChanges st1;
             st2 = st1\<lparr>pendingChanges := []\<rparr>;
             st3 = log (Processing (length changes)) st2
         in (case analyzeChanges changes of
               Inl e \<Rightarrow> log (ErrorProcessing e) st3
             | Inr changeAnalysis \<Rightarrow>
                 (let st4 = quickUpdate w changeAnalysis st3;
                      st5 = (if aiUpdateThreshold st4 \<le> length changes
                             then aiEnhancedUpdate w changeAnalysis st4 else st4)
                  in log UpdatedSuccessfully st5))
            \<lparr>isProcessing := False\<rparr>))"

text \<open>The events that one call of \<^verbatim>\<open>processAccumulatedChanges\<close> adds to the trace.\<close>

definition batch_trace :: "world \<Rightarrow> updater \<Rightarrow> event list" where
  "batch_trace w st = drop (length (trace st)) (trace (processAccumulatedChanges w st))"

subsection \<open>Observations on a trace\<close>

text \<open>The path that a console line of the two file-event handlers reports.\<close>

fun arrived :: "event \<Rightarrow> string list" where
  "arrived (Log (FileChanged p)) = [p]"
| "arrived (Log (FileDeleted p)) = [p]"
| "arrived e = []"

text \<open>
  The events of the deterministic regeneration step (\<^verbatim>\<open>quickUpdate\<close> up to its commit)
  and those of the AI enhancement step (\<^verbatim>\<open>aiEnhancedUpdate\<close> up to its commit).
\<close>

fun regen_event :: "event \<Rightarrow> bool" where
  "regen_event (Log QuickRunning) = True"
| "regen_event (Log (QuickFailed e)) = True"
| "regen_event (Exec cmd r) =
     (cmd = ''npm run sync:types'' \<or> cmd = ''node scripts/generate-docs.js'')"
| "regen_event e = False"

fun ai_event :: "event \<Rightarrow> bool" where
  "ai_event (Log AIRunning) = True"
| "ai_event (Log NoKeys) = True"
| "ai_event (Log (AIFailed e)) = True"
| "ai_event (Exec cmd r) = (cmd = ''node scripts/enhance-with-ai.js'')"
| "ai_event e = False"

text \<open>The errors of the commands that failed, and the errors that the console reports.\<close>

fun failed_with :: "event \<Rightarrow> js_error list" where
  "failed_with (Exec cmd (ExecFail e)) = [e]"
| "failed_with e = []"

fun reported :: "event \<Rightarrow> js_error list" where
  "reported (Log (QuickFailed e)) = [e]"
| "reported (Log (AIFailed e)) = [e]"
| "reported (Log (CommitFailed e)) = [e]"
| "reported (Log (ErrorProcessing e)) = [e]"
| "reported e = []"

text \<open>The console line of a file event.\<close>

definition fs_log :: "fs_event \<Rightarrow> log_entry" where
  "fs_log ev = (case ev of Change p \<Rightarrow> FileChanged p | Add p \<Rightarrow> FileChanged p | Unlink p \<Rightarrow> FileDeleted p)"

text \<open>
  \<open>step st st' new\<close>: from \<open>st\<close> to \<open>st'\<close> the process has added the events \<open>new\<close>
  to its trace, has put the paths of the file events among them into the pending set, and
  has left the processing flag and the threshold alone.
\<close>

definition step :: "updater \<Rightarrow> updater \<Rightarrow> event list \<Rightarrow> bool" where
  "step st st' new =
     (trace st' = trace st @ new
      \<and> pendingChanges st' = fold set_add (concat (map arrived new)) (pendingChanges st)
      \<and> isProcessing st' = isProcessing st
      \<and> aiUpdateThreshold st' = aiUpdateThreshold st)"

text \<open>Every error of a failed command is also the error of some console report.\<close>

definition failures_logged :: "event list \<Rightarrow> bool" where
  "failures_logged new = (set (concat (map failed_with new)) \<subseteq> set (concat (map reported new)))"

definition file_ok :: "(event \<Rightarrow> bool) \<Rightarrow> bool" where
  "file_ok P = (\<forall>p. P (Log (FileChanged p)) \<and> P (Log (FileDeleted p)))"

definition spec :: "(event \<Rightarrow> bool) \<Rightarrow> updater \<Rightarrow> updater \<Rightarrow> bool" where
  "spec P st st' =
     (\<exists>new. step st st' new \<and> (\<forall>e \<in> set new. P e) \<and> failures_logged new \<and> env st' = env st)"

definition commit_event :: "event \<Rightarrow> bool" where
  "commit_event e = (\<not> regen_event e \<and> \<not> ai_event e)"

definition not_ai :: "event \<Rightarrow> bool" where
  "not_ai e = (\<not> ai_event e)"

definition not_regen :: "event \<Rightarrow> bool" where
  "not_regen e = (\<not> regen_event e)"

text \<open>The environment that \<^verbatim>\<open>aiEnhancedUpdate\<close> hands to the enhancer.\<close>

definition ai_env :: "analysis \<Rightarrow> (string \<rightharpoonup> string) \<Rightarrow> (string \<rightharpoonup> string)" where
  "ai_env a e = e(''CHANGED_MODULES'' \<mapsto> js_join ''\<newline>'' (modules a),
                  ''TYPES_CHANGED'' \<mapsto> (if types a then ''true'' else []))"

definition has_keys :: "(string \<rightharpoonup> string) \<Rightarrow> bool" where
  "has_keys e = (env_truthy (e ''ANTHROPIC_API_KEY'') \<or> env_truthy (e ''OPENAI_API_KEY''))"

subsection \<open>Concrete runs\<close>

text \<open>
  A world in which the generator script fails and every other command succeeds with empty
  output, and updaters on which two and three distinct paths have been reported.
\<close>

definition failing_generator :: world where
  "failing_generator =
     \<lparr>exec = (\<lambda>tr e cmd. if cmd = ''node scripts/generate-docs.js''
                          then ExecFail (Error ''generate-docs exited with code 1'') else ExecOk []),
      arrivals = (\<lambda>tr. []),
      now = (\<lambda>tr. ''2025-06-01T00:00:00.000Z'')\<rparr>"

definition two_pending :: updater where
  "two_pending =
     handleFileChange ''src/lib/b.ts''
       (handleFileChange ''src/modules/sales/a.tsx''
         (new_updater [''ANTHROPIC_API_KEY'' \<mapsto> ''key'']))"

definition three_pending :: updater where
  "three_pending = handleFileChange ''src/components/c.tsx'' two_pending"


definition one_pending :: updater where
  "one_pending = handleFileChange ''src/modules/sales/a.tsx'' (new_updater Map.empty)"

text \<open>A world in which every command succeeds and the working tree is dirty.\<close>

definition succeeding :: world where
  "succeeding =
     \<lparr>exec = (\<lambda>tr e cmd. if cmd = ''git status --porcelain''
                          then ExecOk '' M modules/sales.mdx\<newline>'' else ExecOk []),
      arrivals = (\<lambda>tr. []),
      now = (\<lambda>tr. ''2025-06-01T00:00:00.000Z'')\<rparr>"





section \<open>AI Enhancer: \<^verbatim>\<open>AIDocumentationEnhancer\<close> of enhance-with-ai.js\<close>

subsection \<open>The file system\<close>

text \<open>
  A path names a regular file with its content, a directory with the names of its entries,
  or nothing. Paths are the strings that the script builds, relative to the directory of
  the script; \<^verbatim>\<open>path.join\<close> is modelled by concatenation with a slash, without
  normalisation. \<^verbatim>\<open>readFileSync\<close> and \<^verbatim>\<open>readdirSync\<close> raise on a missing path and
  on a path of the wrong kind, \<^verbatim>\<open>writeFileSync\<close> raises on a directory.
\<close>

datatype node = File string | Dir "string list"

type_synonym filesystem = "string \<rightharpoonup> node"

definition existsSync :: "filesystem \<Rightarrow> string \<Rightarrow> bool" where
  "existsSync fs p = (fs p \<noteq> None)"

definition readFileSync :: "filesystem \<Rightarrow> string \<Rightarrow> js_error + string" where
  "readFileSync fs p =
     (case fs p of None \<Rightarrow> Inl ENOENT | Some (Dir es) \<Rightarrow> Inl EISDIR | Some (File c) \<Rightarrow> Inr c)"

definition readdirSync :: "filesystem \<Rightarrow> string \<Rightarrow> js_error + string list" where
  "readdirSync fs p =
     (case fs p of None \<Rightarrow> Inl ENOENT | Some (File c) \<Rightarrow> Inl ENOTDIR | Some (Dir es) \<Rightarrow> Inr es)"

definition writeFileSync :: "filesystem \<Rightarrow> string \<Rightarrow> string \<Rightarrow> js_error + filesystem" where
  "writeFileSync fs p content =
     (case fs p of Some (Dir es) \<Rightarrow> Inl EISDIR | _ \<Rightarrow> Inr (fs(p \<mapsto> File content)))"

definition path_join :: "string \<Rightarrow> string \<Rightarrow> string" where
  "path_join dir name = dir @ ''/'' @ name"

subsection \<open>The text-generation service\<close>

text \<open>
  A request either resolves with the texts of the content blocks of the response or is
  rejected with an error, which may carry an HTTP status. The service is a parameter: the
  outcome of a request depends on how many requests the process has sent before and on the
  prompt. A prompt is kept as the template that was used together with the values put into
  it.
\<close>

datatype api_result = Response "string list" | Rejected "nat option"

record entity_info =
  ei_name :: string
  hasRelationships :: bool
  fieldCount :: nat

datatype module_code = ModuleNotFound | ModuleAnalysis "entity_info list"

datatype prompt = ModulePrompt string module_code string

type_synonym service = "nat \<Rightarrow> prompt \<Rightarrow> api_result"

datatype enhancer_log =
    Enhancing string
  | NoExistingDoc string
  | Enhanced string
  | CallFailed "nat option"
  | RateLimited
  | OverviewEnhanced

record enhancer =
  changedModules :: "string list"
  typesChanged :: bool

record run =
  files :: filesystem
  requests :: "prompt list"
  waits :: "nat list"
  console :: "enhancer_log list"

definition say :: "enhancer_log \<Rightarrow> run \<Rightarrow> run" where
  "say l st = st\<lparr>console := console st @ [l]\<rparr>"

subsection \<open>The constructor\<close>

definition new_enhancer :: "(string \<rightharpoonup> string) \<Rightarrow> js_error + enhancer" where
  "new_enhancer e =
     (if \<not> env_truthy (e ''ANTHROPIC_API_KEY'')
      then Inl (Error ''ANTHROPIC_API_KEY is required. Get it from https://console.anthropic.com/settings/keys'')
      else Inr \<lparr>changedModules =
                  (case e ''CHANGED_MODULES'' of
                     None \<Rightarrow> []
                   | Some s \<Rightarrow> filter (\<lambda>x. x \<noteq> []) (js_split ''\<newline>'' s)),
                typesChanged = env_truthy (e ''TYPES_CHANGED'')\<rparr>)"

subsection \<open>\<^verbatim>\<open>callClaude\<close>\<close>

text \<open>
  The result is \<open>None\<close> when the call never returns. A call that returns gives the text
  (\<open>None\<close> for \<^verbatim>\<open>null\<close>) and the new state. Reading \<^verbatim>\<open>response.content[0].text\<close> of
  a response without content raises a TypeError inside the \<^verbatim>\<open>try\<close>; it is caught like a
  rejection, and has no status.
\<close>

partial_function (option) callClaude :: "service \<Rightarrow> prompt \<Rightarrow> run \<Rightarrow> (string option \<times> run) option"
where
  "callClaude svc p st =
     (case svc (length (requests st)) p of
        Response (t # ts) \<Rightarrow> Some (Some t, st\<lparr>requests := requests st @ [p]\<rparr>)
      | Response [] \<Rightarrow> Some (None, say (CallFailed None) (st\<lparr>requests := requests st @ [p]\<rparr>))
      | Rejected status \<Rightarrow>
          if status = Some 429
          then callClaude svc p
                 ((say RateLimited (say (CallFailed status) (st\<lparr>requests := requests st @ [p]\<rparr>)))
                    \<lparr>waits := waits st @ [60000]\<rparr>)
          else Some (None, say (CallFailed status) (st\<lparr>requests := requests st @ [p]\<rparr>)))"

subsection \<open>Reading the module\<close>

text \<open>
  \<^verbatim>\<open>content.match(/fields:\s*\{([^}]+)\}/s)\<close>: the leftmost place where \<^verbatim>\<open>fields:\<close>,
  white space, an opening brace, at least one character other than a closing brace, and a
  closing brace follow one another; the group is the text between the braces.
\<close>

definition fields_here :: "string \<Rightarrow> string option" where
  "fields_here s =
     (if startsWith s ''fields:'' then
        (case skip_white white_space 0 (drop 7 s) of
           [] \<Rightarrow> None
         | c # rest \<Rightarrow>
             if c = CHR ''{'' \<and> takeWhile (\<lambda>x. x \<noteq> CHR ''}'') rest \<noteq> []
                \<and> dropWhile (\<lambda>x. x \<noteq> CHR ''}'') rest \<noteq> []
             then Some (takeWhile (\<lambda>x. x \<noteq> CHR ''}'') rest) else None)
      else None)"

fun fields_match :: "string \<Rightarrow> string option" where
  "fields_match [] = None"
| "fields_match (c # cs) =
     (case fields_here (c # cs) of Some b \<Rightarrow> Some b | None \<Rightarrow> fields_match cs)"

definition extractFieldCount :: "string \<Rightarrow> nat" where
  "extractFieldCount content =
     (case fields_match content of Some b \<Rightarrow> length (js_split '','' b) | None \<Rightarrow> 0)"

definition replace_first :: "string \<Rightarrow> string \<Rightarrow> string \<Rightarrow> string" where
  "replace_first pat rep s =
     (case split_first pat s of None \<Rightarrow> s | Some (a, b) \<Rightarrow> a @ rep @ b)"

fun analyzeEntities :: "filesystem \<Rightarrow> string \<Rightarrow> string list \<Rightarrow> js_error + entity_info list" where
  "analyzeEntities fs entitiesPath [] = Inr []"
| "analyzeEntities fs entitiesPath (file # rest) =
     (case readFileSync fs (path_join entitiesPath file) of
        Inl e \<Rightarrow> Inl e
      | Inr content \<Rightarrow>
          (case analyzeEntities fs entitiesPath rest of
             Inl e \<Rightarrow> Inl e
           | Inr infos \<Rightarrow>
               Inr (\<lparr>ei_name = replace_first ''.tsx'' [] file,
                     hasRelationships = js_includes content ''relationships:'',
                     fieldCount = extractFieldCount content\<rparr> # infos)))"

definition analyzeModuleCode :: "filesystem \<Rightarrow> string \<Rightarrow> js_error + module_code" where
  "analyzeModuleCode fs modName =
     (let modulePath = ''../../agves_app/src/modules/'' @ modName in
      if \<not> existsSync fs modulePath then Inr ModuleNotFound
      else
        (let entitiesPath = path_join modulePath ''entities'' in
         if existsSync fs entitiesPath then
           (case readdirSync fs entitiesPath of
              Inl e \<Rightarrow> Inl e
            | Inr entries \<Rightarrow>
                (case analyzeEntities fs entitiesPath (filter (\<lambda>f. endsWith f ''.tsx'') entries) of
                   Inl e \<Rightarrow> Inl e
                 | Inr infos \<Rightarrow> Inr (ModuleAnalysis infos)))
         else Inr (ModuleAnalysis [])))"

text \<open>
  The layout of the source tree that the enhancer reads: a module directory holds, if
  anything, a directory \<^verbatim>\<open>entities\<close>, whose entries named \<^verbatim>\<open>*.tsx\<close> are
  regular files (the entity definitions).
\<close>

definition module_layout :: "filesystem \<Rightarrow> string \<Rightarrow> bool" where
  "module_layout fs modName =
     (let entitiesPath = path_join (''../../agves_app/src/modules/'' @ modName) ''entities'' in
      case fs entitiesPath of
        None \<Rightarrow> True
      | Some (File c) \<Rightarrow> False
      | Some (Dir entries) \<Rightarrow>
          list_all (\<lambda>f. case fs (path_join entitiesPath f) of Some (File c) \<Rightarrow> True | _ \<Rightarrow> False)
            (filter (\<lambda>f. endsWith f ''.tsx'') entries))"

definition docPath :: "string \<Rightarrow> string" where
  "docPath modName = ''../modules/'' @ modName @ ''.mdx''"

definition readModuleDoc :: "filesystem \<Rightarrow> string \<Rightarrow> js_error + string" where
  "readModuleDoc fs modName =
     (if existsSync fs (docPath modName) then readFileSync fs (docPath modName) else Inr [])"

definition writeModuleDoc :: "filesystem \<Rightarrow> string \<Rightarrow> string \<Rightarrow> js_error + filesystem" where
  "writeModuleDoc fs modName content = writeFileSync fs (docPath modName) content"

subsection \<open>Enhancing the pages\<close>

text \<open>
  A method returns the error that it has raised, if any, together with the state that it
  has reached; \<open>None\<close> when it never returns.
\<close>

definition enhanceModuleDocumentation ::
  "service \<Rightarrow> string \<Rightarrow> run \<Rightarrow> (js_error option \<times> run) option" where
  "enhanceModuleDocumentation svc modName st =
     (let st0 = say (Enhancing modName) st in
      case analyzeModuleCode (files st0) modName of
        Inl e \<Rightarrow> Some (Some e, st0)
      | Inr moduleCode \<Rightarrow>
          (case readModuleDoc (files st0) modName of
             Inl e \<Rightarrow> Some (Some e, st0)
           | Inr currentDoc \<Rightarrow>
               if currentDoc = [] then Some (None, say (NoExistingDoc modName) st0)
               else
                 (case callClaude svc (ModulePrompt modName moduleCode currentDoc) st0 of
                    None \<Rightarrow> None
                  | Some (None, st1) \<Rightarrow> Some (None, st1)
                  | Some (Some enhancedDoc, st1) \<Rightarrow>
                      if enhancedDoc = [] then Some (None, st1)
                      else
                        (case writeModuleDoc (files st1) modName enhancedDoc of
                           Inl e \<Rightarrow> Some (Some e, st1)
                         | Inr fs' \<Rightarrow> Some (None, say (Enhanced modName) (st1\<lparr>files := fs'\<rparr>))))))"

text \<open>The loop over the changed modules in \<^verbatim>\<open>enhanceDocumentation\<close>.\<close>

fun enhanceModules :: "service \<Rightarrow> string list \<Rightarrow> run \<Rightarrow> (js_error option \<times> run) option" where
  "enhanceModules svc [] st = Some (None, st)"
| "enhanceModules svc (m # ms) st =
     (case enhanceModuleDocumentation svc m st of
        None \<Rightarrow> None
      | Some (Some e, st1) \<Rightarrow> Some (Some e, st1)
      | Some (None, st1) \<Rightarrow> enhanceModules svc ms st1)"

definition overviewPath :: string where
  "overviewPath = ''../architecture/overview.mdx''"

definition enhanceArchitectureOverview :: "string option \<Rightarrow> run \<Rightarrow> js_error option \<times> run" where
  "enhanceArchitectureOverview insights st =
     (case insights of
        None \<Rightarrow> (None, st)
      | Some text \<Rightarrow>
          if text = [] then (None, st)
          else if existsSync (files st) overviewPath then
            (case readFileSync (files st) overviewPath of
               Inl e \<Rightarrow> (Some e, st)
             | Inr currentContent \<Rightarrow>
                 (let enhancedContent =
                        currentContent @ ''\<newline>\<newline>## AI-Generated Insights\<newline>\<newline>'' @ text
                  in case writeFileSync (files st) overviewPath enhancedContent of
                       Inl e \<Rightarrow> (Some e, st)
                     | Inr fs' \<Rightarrow> (None, say OverviewEnhanced (st\<lparr>files := fs'\<rparr>))))
          else (None, st))"

text \<open>What \<^verbatim>\<open>callClaude\<close> returns for the outcome of the request that ends it.\<close>

definition answer :: "api_result \<Rightarrow> string option" where
  "answer r = (case r of Response (t # ts) \<Rightarrow> Some t | _ \<Rightarrow> None)"

subsection \<open>Concrete runs of the enhancer\<close>

text \<open>
  A documentation tree that holds the page of the module \<^verbatim>\<open>sales\<close> and the architecture
  overview, and services that reject the first request, or the first two, as rate-limited
  and then answer.
\<close>

definition sales_docs :: run where
  "sales_docs =
     \<lparr>files = [docPath ''sales'' \<mapsto> File ''# Sales'', overviewPath \<mapsto> File ''# Architecture''],
      requests = [], waits = [], console = []\<rparr>"

definition limited_once :: service where
  "limited_once = (\<lambda>n p. if n < 1 then Rejected (Some 429) else Response [''# Sales, enhanced''])"

definition limited_twice :: service where
  "limited_twice = (\<lambda>n p. if n < 2 then Rejected (Some 429) else Response [''# Sales, enhanced''])"

text \<open>
  The state after the page of \<^verbatim>\<open>sales\<close> has been enhanced against the service that
  rejects two requests.
\<close>

definition sales_docs_enhanced :: run where
  "sales_docs_enhanced =
     \<lparr>files = (files sales_docs)(docPath ''sales'' \<mapsto> File ''# Sales, enhanced''),
      requests = [ModulePrompt ''sales'' ModuleNotFound ''# Sales'',
                  ModulePrompt ''sales'' ModuleNotFound ''# Sales'',
                  ModulePrompt ''sales'' ModuleNotFound ''# Sales''],
      waits = [60000, 60000],
      console = [Enhancing ''sales'', CallFailed (Some 429), RateLimited,
                 CallFailed (Some 429), RateLimited, Enhanced ''sales'']\<rparr>"

text \<open>
  A tree without any documentation page, in which the source directory of the module
  \<^verbatim>\<open>sales\<close> holds one entity definition; and a tree in which that directory holds a
  regular file named \<^verbatim>\<open>entities\<close>.
\<close>

definition sales_source :: run where
  "sales_source =
     \<lparr>files = [''../../agves_app/src/modules/sales'' \<mapsto> Dir [''entities'', ''i18n''],
               ''../../agves_app/src/modules/sales/entities'' \<mapsto> Dir [''order.tsx'', ''notes.txt''],
               ''../../agves_app/src/modules/sales/entities/order.tsx''
                  \<mapsto> File ''fields: { id, total }, relationships: {}'',
               ''../../agves_app/src/modules/sales/i18n'' \<mapsto> Dir []],
      requests = [], waits = [], console = []\<rparr>"

definition entities_is_a_file :: run where
  "entities_is_a_file =
     \<lparr>files = [''../../agves_app/src/modules/sales'' \<mapsto> Dir [''entities''],
               ''../../agves_app/src/modules/sales/entities'' \<mapsto> File []],
      requests = [], waits = [], console = []\<rparr>"

text \<open>A tree without any documentation page and without the source of the module.\<close>

definition no_docs :: run where
  "no_docs = \<lparr>files = Map.empty, requests = [], waits = [], console = []\<rparr>"

section \<open>Doc Generator: the generator script\<close>

text \<open>
  The script holds its configuration in a constant; here every function takes the
  configuration as an argument, and the constant of the script is \<open>config\<close> below.
  Texts are sequences of bytes (UTF-8), so the conversions of letter case act on the ASCII
  letters only.
\<close>

record module_descriptor =
  name :: string
  entities :: "string list"
  hasServices :: bool
  hasTests :: bool

record config =
  srcPath :: string
  docsPath :: string
  modules :: "module_descriptor list"

definition config :: config where
  "config =
     \<lparr>srcPath = ''../../agves_app/src'',
      docsPath = ''.'',
      modules =
        [\<lparr>name = ''authorization'', entities = [''permission'', ''role''],
          hasServices = True, hasTests = True\<rparr>,
         \<lparr>name = ''financial'', entities = [''account'', ''transaction''],
          hasServices = False, hasTests = False\<rparr>,
         \<lparr>name = ''identity'',
          entities = [''identity'', ''identity-phone'', ''identity-street'', ''identity-property''],
          hasServices = False, hasTests = False\<rparr>,
         \<lparr>name = ''sales'',
          entities = [''attribute'', ''attribute-category'', ''attribute-value'',
                      ''cart'', ''cart-item'', ''customer'', ''order'',
                      ''product'', ''service'', ''shop'', ''shop-item'', ''shop-item-category''],
          hasServices = False, hasTests = False\<rparr>,
         \<lparr>name = ''school'', entities = [''school-class'', ''student''],
          hasServices = False, hasTests = False\<rparr>]\<rparr>"

subsection \<open>Values in templates\<close>

text \<open>A length, as a template prints it: in decimal.\<close>

fun dec :: "nat \<Rightarrow> string" where
  "dec n = (if n < 10 then [''0123456789'' ! n]
            else dec (n div 10) @ [''0123456789'' ! (n mod 10)])"

declare dec.simps [simp del]




definition toUpperChar :: "char \<Rightarrow> char" where
  "toUpperChar c =
     (case map_of (zip ''abcdefghijklmnopqrstuvwxyz'' ''ABCDEFGHIJKLMNOPQRSTUVWXYZ'') c of
        Some u \<Rightarrow> u
      | None \<Rightarrow> c)"

definition toLowerChar :: "char \<Rightarrow> char" where
  "toLowerChar c =
     (case map_of (zip ''ABCDEFGHIJKLMNOPQRSTUVWXYZ'' ''abcdefghijklmnopqrstuvwxyz'') c of
        Some l \<Rightarrow> l
      | None \<Rightarrow> c)"

definition toLowerCase :: "string \<Rightarrow> string" where
  "toLowerCase s = map toLowerChar s"

text \<open>\<^verbatim>\<open>s.charAt(0).toUpperCase() + s.slice(1)\<close>\<close>

definition capitalize :: "string \<Rightarrow> string" where
  "capitalize s = (case s of [] \<Rightarrow> [] | c # cs \<Rightarrow> toUpperChar c # cs)"

definition displayName :: "string \<Rightarrow> string" where
  "displayName entity = js_join '' '' (map capitalize (js_split ''-'' entity))"

text \<open>\<^verbatim>\<open>s.replace(/\s/g, '')\<close>\<close>

definition remove_spaces :: "string \<Rightarrow> string" where
  "remove_spaces s = remove_white white_space 0 s"

text \<open>\<^verbatim>\<open>module.entities[0]\<close> in a template: a missing element prints as \<^verbatim>\<open>undefined\<close>.\<close>

definition first_entity :: "module_descriptor \<Rightarrow> string" where
  "first_entity m = (case entities m of [] \<Rightarrow> ''undefined'' | e # es \<Rightarrow> e)"

text \<open>
  The icon table. (A name that is a property of every object, such as
  \<^verbatim>\<open>constructor\<close>, finds that property in the script; such names are not modelled.)
\<close>

definition getModuleIcon :: "string \<Rightarrow> string" where
  "getModuleIcon modName =
     (case map_of [(''authorization'', ''lock''), (''financial'', ''credit-card''),
                   (''identity'', ''user''), (''sales'', ''shopping-cart''),
                   (''school'', ''graduation-cap'')] modName of
        Some icon \<Rightarrow> if icon \<noteq> [] then icon else ''puzzle-piece''
      | None \<Rightarrow> ''puzzle-piece'')"

text \<open>The box-drawing characters and the bullet of the templates, in UTF-8.\<close>

definition box_tee :: string where
  "box_tee = [CHR 0xE2, CHR 0x94, CHR 0x9C, CHR 0xE2, CHR 0x94, CHR 0x80, CHR 0xE2, CHR 0x94, CHR 0x80]"

definition box_corner :: string where
  "box_corner = [CHR 0xE2, CHR 0x94, CHR 0x94, CHR 0xE2, CHR 0x94, CHR 0x80, CHR 0xE2, CHR 0x94, CHR 0x80]"

definition box_bar :: string where
  "box_bar = [CHR 0xE2, CHR 0x94, CHR 0x82]"

definition bullet :: string where
  "bullet = [CHR 0xE2, CHR 0x80, CHR 0xA2]"

subsection \<open>The page templates\<close>

definition architectureOverview_text1 :: string where
  "architectureOverview_text1 =
     ''---\<newline>'' @ ''title: \"Architecture Overview\"\<newline>''
     @ ''description: \"High-level overview of the AGVES application architecture and design principles\"\<newline>''
     @ ''---\<newline>'' @ ''\<newline>'' @ ''## Architecture Philosophy\<newline>''
     @ ''\<newline>''
     @ ''AGVES follows an **entity-driven architecture** that prioritizes:\<newline>''
     @ ''\<newline>''
     @ ''- **Business Logic Clarity**: Each entity encapsulates its domain logic\<newline>''
     @ ''- **Type Safety**: End-to-end TypeScript with Laravel-generated types\<newline>''
     @ ''- **Loose Coupling**: Dependency injection for service management\<newline>''
     @ ''- **Event-Driven Communication**: Reactive updates across the system\<newline>''
     @ ''\<newline>'' @ ''## System Components\<newline>'' @ ''\<newline>''
     @ ''<CardGroup cols={2}>\<newline>''
     @ ''  <Card title=\"Frontend (Next.js 15)\" icon=\"react\">\<newline>''
     @ ''    - App Router with dynamic routing\<newline>''
     @ ''    - Entity-aware components\<newline>''
     @ ''    - Real-time form validation\<newline>''
     @ ''    - Multi-language support\<newline>'' @ ''  </Card>\<newline>''
     @ ''  <Card title=\"Backend (Laravel)\" icon=\"server\">\<newline>''
     @ ''    - RESTful API endpoints\<newline>''
     @ ''    - Type generation for frontend\<newline>''
     @ ''    - Role-based authorization\<newline>'' @ ''    - Event broadcasting\<newline>''
     @ ''  </Card>\<newline>'' @ ''</CardGroup>\<newline>'' @ ''\<newline>''
     @ ''## Key Design Patterns\<newline>'' @ ''\<newline>''
     @ ''### Entity-Driven Development\<newline>''
     @ ''Every business concept is modeled as an entity with:\<newline>''
     @ ''- Standardized CRUD operations\<newline>''
     @ ''- Automatic form generation\<newline>'' @ ''- Relationship management\<newline>''
     @ ''- Internationalization support\<newline>'' @ ''\<newline>''
     @ ''### Dependency Injection\<newline>''
     @ ''Services are managed through InversifyJS container for:\<newline>''
     @ ''- Testability and mocking\<newline>''
     @ ''- Environment-specific implementations\<newline>''
     @ ''- Loose coupling between components\<newline>'' @ ''\<newline>''
     @ ''### Event-Driven Architecture\<newline>''
     @ ''Events flow through the system to:\<newline>''
     @ ''- Maintain data consistency\<newline>''
     @ ''- Enable reactive UI updates\<newline>'' @ ''- Decouple business logic\<newline>''
     @ ''\<newline>'' @ ''## Module Structure\<newline>'' @ ''\<newline>''
     @ ''Each business module follows a consistent pattern:\<newline>'' @ ''\<newline>''
     @ ''```\<newline>'' @ ''modules/[module]/\<newline>''
     @ box_tee
     @ '' [module].tsx           # Module configuration\<newline>''
     @ box_tee
     @ '' index.tsx              # Exports\<newline>''
     @ box_tee
     @ '' entities/              # Entity definitions\<newline>''
     @ box_tee
     @ '' i18n/                  # Translations\<newline>''
     @ box_tee
     @ '' services/              # Business logic (optional)\<newline>''
     @ box_corner
     @ '' __tests__/             # Tests (optional)\<newline>'' @ ''```\<newline>''
     @ ''\<newline>'' @ ''## Next Steps\<newline>'' @ ''\<newline>''
     @ ''Explore specific architectural components:\<newline>''
     @ ''- [Entity System](/architecture/entity-system)\<newline>''
     @ ''- [Dependency Injection](/architecture/dependency-injection)\<newline>''
     @ ''- [Event System](/architecture/event-system)\<newline>''
     @ ''- [Internationalization](/architecture/internationalization)\<newline>''"

definition architectureOverview :: "string" where
  "architectureOverview =
     architectureOverview_text1"

definition entitySystemCard :: "module_descriptor \<Rightarrow> string" where
  "entitySystemCard m =
     ''  <Card\<newline>'' @ ''    title=\"'' @ capitalize (name m) @ ''\"\<newline>''
     @ ''    href=\"/modules/'' @ name m @ ''\"\<newline>'' @ ''  >\<newline>'' @ ''    ''
     @ dec (length (entities m)) @ '' entities: '' @ js_join '', '' (take 3 (entities m))
     @ (if 3 < length (entities m) then ''...'' else []) @ ''\<newline>'' @ ''  </Card>''"

definition entitySystemDoc_text1 :: string where
  "entitySystemDoc_text1 =
     ''---\<newline>'' @ ''title: \"Entity System\"\<newline>''
     @ ''description: \"Understanding the entity-driven architecture and how entities are managed across the application''
     @ ''\"\<newline>'' @ ''---\<newline>'' @ ''\<newline>'' @ ''## Overview\<newline>''
     @ ''\<newline>''
     @ ''The AGVES application is built around an **entity-driven architecture** where business logic is organized arou''
     @ ''nd entities with standardized patterns for CRUD operations, relationships, and event handling.\<newline>''
     @ ''\<newline>'' @ ''## Entity Structure\<newline>'' @ ''\<newline>''
     @ ''Every entity in the system follows a consistent pattern:\<newline>''
     @ ''\<newline>'' @ ''```\<newline>'' @ ''modules/[module]/\<newline>''
     @ box_tee
     @ '' entities/\<newline>'' @ box_bar @ ''   ''
     @ box_corner
     @ '' [entity-name].tsx     # Entity definition with fields, relationships\<newline>''
     @ box_tee
     @ '' i18n/\<newline>'' @ box_bar @ ''   ''
     @ box_corner
     @ '' entities/\<newline>'' @ box_bar @ ''       ''
     @ box_corner
     @ '' [entity-name].ts  # Translations for the entity\<newline>''
     @ box_corner
     @ '' services/                 # Optional business logic services\<newline>''
     @ ''```\<newline>'' @ ''\<newline>'' @ ''## Entity Definition Pattern\<newline>''
     @ ''\<newline>'' @ ''```typescript\<newline>''
     @ ''// modules/authorization/entities/permission.tsx\<newline>''
     @ ''import { Entity } from '@/lib/entity/entity';\<newline>'' @ ''\<newline>''
     @ ''export const PermissionEntity = Entity.create('permission', {\<newline>''
     @ ''  module: 'authorization',\<newline>'' @ ''  fields: {\<newline>''
     @ ''    id: { type: 'number', primary: true },\<newline>''
     @ ''    name: { type: 'string', required: true },\<newline>''
     @ ''    description: { type: 'string', nullable: true },\<newline>''
     @ ''    module: { type: 'string', nullable: true }\<newline>'' @ ''  },\<newline>''
     @ ''  relationships: {\<newline>'' @ ''    roles: {\<newline>''
     @ ''      type: 'belongsToMany',\<newline>'' @ ''      entity: 'role',\<newline>''
     @ ''      module: 'authorization'' @ [CHR 0x27] @ ''\<newline>'' @ ''    }\<newline>''
     @ ''  }\<newline>'' @ ''});\<newline>'' @ ''```\<newline>'' @ ''\<newline>''
     @ ''## Available Modules\<newline>'' @ ''\<newline>''
     @ ''<CardGroup cols={2}>\<newline>''"

definition entitySystemDoc_text2 :: string where
  "entitySystemDoc_text2 =
     ''</CardGroup>\<newline>'' @ ''\<newline>'' @ ''## Entity Features\<newline>''
     @ ''\<newline>'' @ ''### Automatic API Integration\<newline>''
     @ ''All entities automatically get CRUD operations through the API service layer:\<newline>''
     @ ''\<newline>'' @ ''```typescript\<newline>''
     @ ''const { data: permissions } = useEntityQuery('permission', 'authorization');\<newline>''
     @ ''```\<newline>'' @ ''\<newline>'' @ ''### Relationship Management\<newline>''
     @ ''Entities can define relationships that are automatically resolved:\<newline>''
     @ ''\<newline>'' @ ''```typescript\<newline>'' @ ''relationships: {\<newline>''
     @ ''  roles: {\<newline>'' @ ''    type: 'belongsToMany',\<newline>''
     @ ''    entity: 'role',\<newline>'' @ ''    module: 'authorization'' @ [CHR 0x27]
     @ ''\<newline>'' @ ''  }\<newline>'' @ ''}\<newline>'' @ ''```\<newline>''
     @ ''\<newline>'' @ ''### Form Generation\<newline>''
     @ ''Forms are automatically generated based on entity field definitions:\<newline>''
     @ ''\<newline>'' @ ''```typescript\<newline>'' @ ''<EntityFormComponent \<newline>''
     @ ''  entityName=\"permission\" \<newline>''
     @ ''  moduleName=\"authorization\" \<newline>'' @ ''/>\<newline>'' @ ''```\<newline>''
     @ ''\<newline>'' @ ''### Internationalization\<newline>''
     @ ''All entity fields and labels are automatically translated:\<newline>''
     @ ''\<newline>'' @ ''```typescript\<newline>''
     @ ''// i18n/entities/permission.ts\<newline>'' @ ''export default {\<newline>''
     @ ''  fields: {\<newline>'' @ ''    name: 'Nom',\<newline>''
     @ ''    description: 'Description'' @ [CHR 0x27] @ ''\<newline>'' @ ''  }\<newline>''
     @ ''};\<newline>'' @ ''```\<newline>'' @ ''\<newline>'' @ ''## Next Steps\<newline>''
     @ ''\<newline>''
     @ ''- Learn about [Dependency Injection](/architecture/dependency-injection)\<newline>''
     @ ''- Explore [Event System](/architecture/event-system)\<newline>''
     @ ''- See [Module Examples](/modules/overview)\<newline>''"

definition entitySystemDoc :: "config \<Rightarrow> string" where
  "entitySystemDoc cfg =
     entitySystemDoc_text1 @ js_join ''\<newline>'' (map entitySystemCard (modules cfg))
     @ ''\<newline>'' @ entitySystemDoc_text2"

definition diDoc_text1 :: string where
  "diDoc_text1 =
     ''---\<newline>'' @ ''title: \"Dependency Injection\"\<newline>''
     @ ''description: \"InversifyJS container setup for service management and loose coupling\"\<newline>''
     @ ''---\<newline>'' @ ''\<newline>'' @ ''## Overview\<newline>'' @ ''\<newline>''
     @ ''The application uses **InversifyJS** for dependency injection, providing a clean way to manage services and ma''
     @ ''intain loose coupling between components.\<newline>'' @ ''\<newline>''
     @ ''## Container Setup\<newline>'' @ ''\<newline>''
     @ ''The DI container is configured in `/lib/implementations/next/container/`:\<newline>''
     @ ''\<newline>'' @ ''```typescript\<newline>''
     @ ''// lib/implementations/next/container/container-singleton.ts\<newline>''
     @ ''import { Container } from 'inversify';\<newline>'' @ ''\<newline>''
     @ ''const container = new Container();\<newline>'' @ ''\<newline>''
     @ ''// Service registrations\<newline>''
     @ ''container.bind('ApiService').to(ApiService);\<newline>''
     @ ''container.bind('EventService').to(EventService);\<newline>''
     @ ''container.bind('AuthorizationService').to(AuthorizationService);\<newline>''
     @ ''\<newline>'' @ ''export { container };\<newline>'' @ ''```\<newline>''
     @ ''\<newline>'' @ ''## Using Services\<newline>'' @ ''\<newline>''
     @ ''Services are accessed through custom hooks:\<newline>'' @ ''\<newline>''
     @ ''```typescript\<newline>''
     @ ''import { useContainer } from '@/lib/implementations/next/hooks/container/container';\<newline>''
     @ ''\<newline>'' @ ''export const useAuthorizationService = () => {\<newline>''
     @ ''  const container = useContainer();\<newline>''
     @ ''  return container.get<AuthorizationService>('AuthorizationService');\<newline>''
     @ ''};\<newline>'' @ ''```\<newline>'' @ ''\<newline>'' @ ''## Benefits\<newline>''
     @ ''\<newline>'' @ ''- **Testability**: Easy mocking for tests\<newline>''
     @ ''- **Flexibility**: Environment-specific implementations\<newline>''
     @ ''- **Loose Coupling**: Interface-based dependencies\<newline>''"

definition diDoc :: "string" where
  "diDoc =
     diDoc_text1"

definition modulesOverviewCard :: "module_descriptor \<Rightarrow> string" where
  "modulesOverviewCard m =
     ''  <Card\<newline>'' @ ''    title=\"'' @ capitalize (name m)
     @ '' Module\"\<newline>'' @ ''    href=\"/modules/'' @ name m @ ''\"\<newline>''
     @ ''    icon=\"'' @ getModuleIcon (name m) @ ''\"\<newline>'' @ ''  >\<newline>''
     @ ''    '' @ dec (length (entities m)) @ '' entities ''
     @ bullet @ '' ''
     @ (if hasServices m then ''Has services'' else ''No services'') @ '' ''
     @ bullet @ '' ''
     @ (if hasTests m then ''Has tests'' else ''No tests'') @ ''\<newline>'' @ ''  </Card>''"

definition modulesOverview_text1 :: string where
  "modulesOverview_text1 =
     ''---\<newline>'' @ ''title: \"Business Modules Overview\"\<newline>''
     @ ''description: \"Overview of the business modules that make up the AGVES application\"\<newline>''
     @ ''---\<newline>'' @ ''\<newline>'' @ ''## Module Architecture\<newline>''
     @ ''\<newline>''"

definition modulesOverview_text2 :: string where
  "modulesOverview_text2 =
     ''</CardGroup>\<newline>'' @ ''\<newline>'' @ ''## Common Module Patterns\<newline>''
     @ ''\<newline>''
     @ ''All modules follow a consistent structure that promotes:\<newline>''
     @ ''\<newline>'' @ ''### Standardized Organization\<newline>'' @ ''```\<newline>''
     @ ''modules/[module]/\<newline>''
     @ box_tee
     @ '' [module].tsx           # Module configuration\<newline>''
     @ box_tee
     @ '' index.tsx              # Module exports\<newline>''
     @ box_tee
     @ '' entities/              # Entity definitions\<newline>''
     @ box_tee
     @ '' i18n/                  # Internationalization\<newline>''
     @ box_tee
     @ '' services/              # Business logic (optional)\<newline>''
     @ box_corner
     @ '' __tests__/             # Module tests (optional)\<newline>'' @ ''```\<newline>''
     @ ''\<newline>'' @ ''### Automatic API Integration\<newline>''
     @ ''Each module automatically exposes RESTful endpoints:\<newline>''
     @ ''- **GET** `/api/{module}/{entity}` - List entities\<newline>''
     @ ''- **POST** `/api/{module}/{entity}` - Create entity\<newline>''
     @ ''- **GET** `/api/{module}/{entity}/{id}` - Show specific entity\<newline>''
     @ ''- **PUT** `/api/{module}/{entity}/{id}` - Update entity\<newline>''
     @ ''- **DELETE** `/api/{module}/{entity}/{id}` - Delete entity\<newline>''
     @ ''\<newline>'' @ ''### Entity Relationships\<newline>''
     @ ''Modules can define relationships between entities:\<newline>''
     @ ''- Within the same module\<newline>'' @ ''- Cross-module relationships\<newline>''
     @ ''- Many-to-many associations\<newline>'' @ ''- Polymorphic relationships\<newline>''
     @ ''\<newline>'' @ ''## Module Details\<newline>'' @ ''\<newline>''
     @ ''Click on any module above to see:\<newline>''
     @ ''- Complete entity documentation\<newline>''
     @ ''- API reference with examples\<newline>''
     @ ''- Usage patterns and best practices\<newline>''
     @ ''- Type definitions and relationships\<newline>'' @ ''\<newline>''
     @ ''## Development Workflow\<newline>'' @ ''\<newline>''
     @ ''### Adding New Modules\<newline>''
     @ ''1. Create module structure in `/src/modules/[name]/`\<newline>''
     @ ''2. Define entities with fields and relationships\<newline>''
     @ ''3. Add internationalization files\<newline>''
     @ ''4. Register module in the application\<newline>''
     @ ''5. Generate documentation with `npm run generate:docs`\<newline>'' @ ''\<newline>''
     @ ''### Cross-Module Integration\<newline>''
     @ ''Modules can interact through:\<newline>''
     @ ''- **Shared services** via dependency injection\<newline>''
     @ ''- **Event system** for reactive updates\<newline>''
     @ ''- **Entity relationships** for data modeling\<newline>''
     @ ''- **Authorization** for access control\<newline>''"

definition modulesOverview :: "config \<Rightarrow> string" where
  "modulesOverview cfg =
     modulesOverview_text1 @ ''The AGVES application is organized into **''
     @ dec (length (modules cfg))
     @ '' core business modules**, each handling specific domain logic:\<newline>''
     @ ''\<newline>'' @ ''<CardGroup cols={2}>\<newline>''
     @ js_join ''\<newline>'' (map modulesOverviewCard (modules cfg)) @ ''\<newline>''
     @ modulesOverview_text2"

definition moduleEntityCard :: "module_descriptor \<Rightarrow> string \<Rightarrow> string" where
  "moduleEntityCard m entity =
     ''  <Card\<newline>'' @ ''    title=\"'' @ displayName entity @ ''\"\<newline>''
     @ ''    href=\"/api-reference/'' @ name m @ ''/'' @ entity @ ''\"\<newline>''
     @ ''  >\<newline>'' @ ''    Manage '' @ toLowerCase (displayName entity)
     @ '' operations\<newline>'' @ ''  </Card>''"

definition entityFileLine :: "string \<Rightarrow> string" where
  "entityFileLine entity =
     box_bar @ ''   ''
     @ box_tee
     @ '' '' @ entity @ ''.tsx''"

definition entityTranslationLine :: "string \<Rightarrow> string" where
  "entityTranslationLine entity =
     box_bar @ ''       ''
     @ box_tee
     @ '' '' @ entity @ ''.ts''"

definition servicesLines :: "module_descriptor \<Rightarrow> string" where
  "servicesLines m =
     ''\<newline>''
     @ box_corner
     @ '' services/                  # Business logic services\<newline>'' @ ''    ''
     @ box_corner
     @ '' '' @ name m @ ''-service.ts''"

definition testsLines :: "string" where
  "testsLines =
     ''\<newline>''
     @ box_corner
     @ '' __tests__/                 # Module tests\<newline>'' @ ''    ''
     @ box_corner
     @ '' service/''"

definition moduleDoc_text1 :: string where
  "moduleDoc_text1 =
     box_tee
     @ '' i18n/                      # Internationalization\<newline>''
     @ box_bar @ ''   ''
     @ box_tee
     @ '' translations.ts        # Module translations\<newline>''
     @ box_bar @ ''   ''
     @ box_corner
     @ '' entities/              # Entity translations\<newline>''"

definition moduleDoc_text2 :: string where
  "moduleDoc_text2 =
     ''  \<newline>'' @ ''  return (\<newline>'' @ ''    <div>\<newline>''
     @ ''      {entities?.map(entity => (\<newline>''
     @ ''        <div key={entity.id}>{entity.name}</div>\<newline>''
     @ ''      ))}\<newline>'' @ ''    </div>\<newline>'' @ ''  );\<newline>''
     @ ''}\<newline>'' @ ''```\<newline>'' @ ''\<newline>''
     @ ''### Creating Entities\<newline>'' @ ''```typescript\<newline>''
     @ ''import { EntityFormComponent } from '@/lib/implementations/next/components/entity';\<newline>''
     @ ''\<newline>''"

definition moduleDoc :: "module_descriptor \<Rightarrow> string" where
  "moduleDoc m =
     ''---\<newline>'' @ ''title: \"'' @ capitalize (name m) @ '' Module\"\<newline>''
     @ ''description: \"Business logic and entities for '' @ name m
     @ '' management\"\<newline>'' @ ''---\<newline>'' @ ''\<newline>''
     @ ''## Overview\<newline>'' @ ''\<newline>'' @ ''The '' @ name m
     @ '' module handles all '' @ name m
     @ ''-related business logic and provides the following entities:\<newline>''
     @ ''\<newline>'' @ ''<CardGroup cols={2}>\<newline>''
     @ js_join ''\<newline>'' (map (moduleEntityCard m) (entities m)) @ ''\<newline>''
     @ ''</CardGroup>\<newline>'' @ ''\<newline>'' @ ''## Module Structure\<newline>''
     @ ''\<newline>'' @ ''```\<newline>'' @ ''modules/'' @ name m @ ''/\<newline>''
     @ box_tee
     @ '' '' @ name m @ ''.tsx              # Module configuration\<newline>''
     @ box_tee
     @ '' index.tsx                   # Module exports\<newline>''
     @ box_tee
     @ '' entities/                   # Entity definitions\<newline>''
     @ js_join ''\<newline>'' (map entityFileLine (entities m)) @ ''\<newline>''
     @ moduleDoc_text1 @ js_join ''\<newline>'' (map entityTranslationLine (entities m))
     @ (if hasServices m then servicesLines m else [])
     @ (if hasTests m then testsLines else []) @ ''\<newline>'' @ ''```\<newline>''
     @ ''\<newline>'' @ ''## Usage Examples\<newline>'' @ ''\<newline>''
     @ ''### Querying Entities\<newline>'' @ ''```typescript\<newline>''
     @ ''import { useEntityQuery } from '@/lib/implementations/next/api/hooks/entity/query';\<newline>''
     @ ''\<newline>'' @ ''function '' @ capitalize (name m) @ ''List() {\<newline>''
     @ ''  const { data: entities } = useEntityQuery('' @ [CHR 0x27] @ first_entity m
     @ [CHR 0x27] @ '', '' @ [CHR 0x27] @ name m @ [CHR 0x27] @ '');\<newline>''
     @ moduleDoc_text2 @ ''function Create'' @ capitalize (name m) @ ''() {\<newline>''
     @ ''  return (\<newline>'' @ ''    <EntityFormComponent \<newline>''
     @ ''      entityName=\"'' @ first_entity m @ ''\" \<newline>''
     @ ''      moduleName=\"'' @ name m @ ''\"\<newline>''
     @ ''      mode=\"create\"\<newline>'' @ ''    />\<newline>'' @ ''  );\<newline>''
     @ ''}\<newline>'' @ ''```\<newline>'' @ ''\<newline>'' @ ''## API Endpoints\<newline>''
     @ ''\<newline>''
     @ ''All entities in this module are available through RESTful endpoints:\<newline>''
     @ ''\<newline>'' @ ''```bash\<newline>'' @ ''GET    /api/'' @ name m
     @ ''/{entity}           # List entities\<newline>'' @ ''POST   /api/'' @ name m
     @ ''/{entity}           # Create entity\<newline>'' @ ''GET    /api/'' @ name m
     @ ''/{entity}/{id}      # Show entity\<newline>'' @ ''PUT    /api/'' @ name m
     @ ''/{entity}/{id}      # Update entity\<newline>'' @ ''DELETE /api/'' @ name m
     @ ''/{entity}/{id}      # Delete entity\<newline>'' @ ''```\<newline>''
     @ ''\<newline>'' @ ''## Related Documentation\<newline>'' @ ''\<newline>''
     @ ''- [Entity System Architecture](/architecture/entity-system)\<newline>''
     @ ''- [API Reference](/api-reference/'' @ name m @ ''/'' @ first_entity m
     @ '')\<newline>'' @ ''- [Frontend Components](/components/overview)\<newline>''"

definition componentsOverview_text1 :: string where
  "componentsOverview_text1 =
     ''---\<newline>'' @ ''title: \"Components Overview\"\<newline>''
     @ ''description: \"Reusable UI components and their usage patterns\"\<newline>''
     @ ''---\<newline>'' @ ''\<newline>'' @ ''## Component Architecture\<newline>''
     @ ''\<newline>'' @ ''The application uses a layered component architecture:\<newline>''
     @ ''\<newline>'' @ ''```\<newline>''
     @ ''components/                           # Shared components\<newline>''
     @ ''lib/implementations/next/components/  # Next.js specific components\<newline>''
     @ ''app/[locale]/components/             # App-specific components\<newline>''
     @ ''```\<newline>'' @ ''\<newline>'' @ ''## Core Component Categories\<newline>''
     @ ''\<newline>'' @ ''### Entity Components\<newline>''
     @ ''Specialized components for entity operations:\<newline>'' @ ''\<newline>''
     @ ''```typescript\<newline>'' @ ''// Auto-generated forms\<newline>''
     @ ''<EntityFormComponent \<newline>'' @ ''  entityName=\"permission\" \<newline>''
     @ ''  moduleName=\"authorization\" \<newline>'' @ ''/>\<newline>'' @ ''\<newline>''
     @ ''// Data tables with pagination\<newline>'' @ ''<EntityDataTable \<newline>''
     @ ''  entityName=\"role\" \<newline>'' @ ''  moduleName=\"authorization\" \<newline>''
     @ ''/>\<newline>'' @ ''\<newline>''
     @ ''// Field displays with proper formatting\<newline>''
     @ ''<EntityFieldsDisplay \<newline>'' @ ''  entity={roleData}\<newline>''
     @ ''  entityName=\"role\"\<newline>'' @ ''  moduleName=\"authorization\"\<newline>''
     @ ''/>\<newline>'' @ ''```\<newline>'' @ ''\<newline>''
     @ ''### Form Components\<newline>''
     @ ''Located in `/lib/implementations/next/components/fields/` and `/inputs/`\<newline>''
     @ ''\<newline>'' @ ''<CardGroup cols={2}>\<newline>''
     @ ''  <Card title=\"Field Components\">\<newline>''
     @ ''    Display-only components for showing data with proper formatting\<newline>''
     @ ''  </Card>\<newline>'' @ ''  <Card title=\"Input Components\">\<newline>''
     @ ''    Interactive form input components with validation\<newline>''
     @ ''  </Card>\<newline>'' @ ''</CardGroup>\<newline>'' @ ''\<newline>''
     @ ''### Select Components\<newline>''
     @ ''Advanced select components with API integration:\<newline>'' @ ''\<newline>''
     @ ''```typescript\<newline>'' @ ''<Select\<newline>''
     @ ''  entityName=\"role\"\<newline>'' @ ''  moduleName=\"authorization\"\<newline>''
     @ ''  multiple={false}\<newline>'' @ ''  searchable={true}\<newline>''
     @ ''  placeholder=\"Select a role...\"\<newline>'' @ ''/>\<newline>''
     @ ''```\<newline>'' @ ''\<newline>'' @ ''## Best Practices\<newline>'' @ ''\<newline>''
     @ ''### Component Naming\<newline>''
     @ ''- **Fields**: `[Type]Field.tsx` (e.g., `TextField.tsx`)\<newline>''
     @ ''- **Inputs**: `[Type]Input.tsx` (e.g., `TextInput.tsx`) \<newline>''
     @ ''- **Entity Components**: `Entity[Purpose]Component.tsx`\<newline>''
     @ ''\<newline>'' @ ''### Styling\<newline>''
     @ ''- Use **TailwindCSS** for utility-first styling\<newline>''
     @ ''- **Material-UI** components for complex interactions\<newline>''
     @ ''- Custom styles in `style.ts` files when needed\<newline>''"

definition componentsOverview :: "string" where
  "componentsOverview =
     componentsOverview_text1"

definition apiIntroductionCard :: "module_descriptor \<Rightarrow> string" where
  "apiIntroductionCard m =
     ''  <Card\<newline>'' @ ''    title=\"'' @ capitalize (name m) @ ''\"\<newline>''
     @ ''    href=\"/api-reference/'' @ name m @ ''/'' @ first_entity m @ ''\"\<newline>''
     @ ''  >\<newline>'' @ ''    '' @ dec (length (entities m))
     @ '' entities available\<newline>'' @ ''  </Card>''"

definition apiIntroduction_text1 :: string where
  "apiIntroduction_text1 =
     ''---\<newline>'' @ ''title: \"API Introduction\"\<newline>''
     @ ''description: \"Introduction to the AGVES API and authentication\"\<newline>''
     @ ''---\<newline>'' @ ''\<newline>'' @ ''## Overview\<newline>'' @ ''\<newline>''"

definition apiIntroduction_text2 :: string where
  "apiIntroduction_text2 =
     ''\<newline>'' @ ''## Base URL\<newline>'' @ ''\<newline>'' @ ''```\<newline>''
     @ ''http://localhost:80/api\<newline>'' @ ''```\<newline>'' @ ''\<newline>''
     @ ''## Authentication\<newline>'' @ ''\<newline>''
     @ ''All API endpoints require authentication via Bearer token:\<newline>''
     @ ''\<newline>'' @ ''```bash\<newline>''
     @ ''Authorization: Bearer {your-token}\<newline>'' @ ''```\<newline>'' @ ''\<newline>''
     @ ''## Common Patterns\<newline>'' @ ''\<newline>'' @ ''### List Endpoints\<newline>''
     @ ''All list endpoints support:\<newline>''
     @ ''- **Pagination**: `?page=1&per_page=15`\<newline>''
     @ ''- **Search**: `?search=term`\<newline>''
     @ ''- **Relationships**: `?include=relationship1,relationship2`\<newline>''
     @ ''\<newline>'' @ ''### Response Format\<newline>''
     @ ''All responses follow a consistent format:\<newline>'' @ ''\<newline>''
     @ ''```json\<newline>'' @ ''{\<newline>'' @ ''  \"data\": [...],\<newline>''
     @ ''  \"meta\": {\<newline>'' @ ''    \"current_page\": 1,\<newline>''
     @ ''    \"per_page\": 15,\<newline>'' @ ''    \"total\": 100\<newline>''
     @ ''  }\<newline>'' @ ''}\<newline>'' @ ''```\<newline>'' @ ''\<newline>''
     @ ''## Available Modules\<newline>'' @ ''\<newline>''
     @ ''<CardGroup cols={2}>\<newline>''"

definition apiIntroduction :: "config \<Rightarrow> string" where
  "apiIntroduction cfg =
     apiIntroduction_text1
     @ ''The AGVES API provides RESTful endpoints for all business entities across ''
     @ dec (length (modules cfg))
     @ '' modules. All endpoints follow consistent patterns for CRUD operations, pagination, and relationship loading.\<newline>''
     @ apiIntroduction_text2
     @ js_join ''\<newline>'' (map apiIntroductionCard (modules cfg)) @ ''\<newline>''
     @ ''</CardGroup>\<newline>''"

definition generateEntityApiDoc_text1 :: string where
  "generateEntityApiDoc_text1 =
     ''\<newline>''
     @ ''<ParamField query=\"page\" type=\"integer\" default=\"1\">\<newline>''
     @ ''  Page number for pagination\<newline>'' @ ''</ParamField>\<newline>''
     @ ''\<newline>''
     @ ''<ParamField query=\"per_page\" type=\"integer\" default=\"15\">\<newline>''
     @ ''  Number of items per page (max 100)\<newline>'' @ ''</ParamField>\<newline>''
     @ ''\<newline>'' @ ''<ParamField query=\"search\" type=\"string\">\<newline>''
     @ ''  Search term to filter results\<newline>'' @ ''</ParamField>\<newline>''
     @ ''\<newline>'' @ ''<RequestExample>\<newline>'' @ ''\<newline>''
     @ ''```bash cURL\<newline>''"

definition generateEntityApiDoc_text2 :: string where
  "generateEntityApiDoc_text2 =
     ''  -H \"Authorization: Bearer {token}\" '' @ [CHR 0x5C] @ ''\<newline>''
     @ ''  -H \"Accept: application/json\"\<newline>'' @ ''```\<newline>'' @ ''\<newline>''
     @ ''```typescript React Hook\<newline>''
     @ ''import { useEntityQuery } from '@/lib/implementations/next/api/hooks/entity/query';\<newline>''
     @ ''\<newline>''"

definition generateEntityApiDoc_text3 :: string where
  "generateEntityApiDoc_text3 =
     ''  \<newline>'' @ ''  if (isLoading) return <div>Loading...</div>;\<newline>''
     @ ''  if (error) return <div>Error: {error.message}</div>;\<newline>''
     @ ''  \<newline>'' @ ''  return (\<newline>'' @ ''    <div>\<newline>''
     @ ''      {data?.map(item => (\<newline>''
     @ ''        <div key={item.id}>{item.name}</div>\<newline>'' @ ''      ))}\<newline>''
     @ ''    </div>\<newline>'' @ ''  );\<newline>'' @ ''}\<newline>'' @ ''```\<newline>''
     @ ''\<newline>'' @ ''</RequestExample>\<newline>'' @ ''\<newline>''"

definition generateEntityApiDoc_text4 :: string where
  "generateEntityApiDoc_text4 =
     ''</ParamField>\<newline>'' @ ''\<newline>'' @ ''<RequestExample>\<newline>''
     @ ''\<newline>'' @ ''```typescript React Component\<newline>''
     @ ''import { EntityFormComponent } from '@/lib/implementations/next/components/entity';\<newline>''
     @ ''\<newline>''"

definition generateEntityApiDoc_text5 :: string where
  "generateEntityApiDoc_text5 =
     ''      mode=\"create\"\<newline>''
     @ ''      onSuccess={(data) => console.log('Created:', data)}\<newline>''
     @ ''    />\<newline>'' @ ''  );\<newline>'' @ ''}\<newline>'' @ ''```\<newline>''
     @ ''\<newline>'' @ ''</RequestExample>\<newline>'' @ ''\<newline>''
     @ ''## Frontend Components\<newline>'' @ ''\<newline>'' @ ''```typescript\<newline>''
     @ ''// Data table with pagination\<newline>'' @ ''<EntityDataTable \<newline>''"

definition generateEntityApiDoc :: "string \<Rightarrow> string \<Rightarrow> string" where
  "generateEntityApiDoc modName entityName =
     ''---\<newline>'' @ ''title: \"'' @ displayName entityName @ ''\"\<newline>''
     @ ''api: \"GET /api/'' @ modName @ ''/'' @ entityName @ ''\"\<newline>''
     @ ''description: \"Manage '' @ toLowerCase (displayName entityName) @ '' in the ''
     @ capitalize modName @ '' module\"\<newline>'' @ ''---\<newline>'' @ ''\<newline>''
     @ ''## Overview\<newline>'' @ ''\<newline>'' @ ''The '' @ displayName entityName
     @ '' API provides full CRUD operations for managing ''
     @ toLowerCase (displayName entityName) @ '' entities within the '' @ capitalize modName
     @ '' module.\<newline>'' @ ''\<newline>'' @ ''## List '' @ displayName entityName
     @ ''\<newline>'' @ generateEntityApiDoc_text1
     @ ''curl -X GET \"http://localhost:80/api/'' @ modName @ ''/'' @ entityName @ ''\" ''
     @ [CHR 0x5C] @ ''\<newline>'' @ generateEntityApiDoc_text2 @ ''function ''
     @ remove_spaces (displayName entityName) @ ''List() {\<newline>''
     @ ''  const { data, isLoading, error } = useEntityQuery('' @ [CHR 0x27] @ entityName
     @ [CHR 0x27] @ '', '' @ [CHR 0x27] @ modName @ [CHR 0x27] @ '');\<newline>''
     @ generateEntityApiDoc_text3 @ ''## Create '' @ displayName entityName @ ''\<newline>''
     @ ''\<newline>'' @ ''<ParamField body=\"name\" type=\"string\" required>\<newline>''
     @ ''  The name of the '' @ toLowerCase (displayName entityName) @ ''\<newline>''
     @ generateEntityApiDoc_text4 @ ''function Create''
     @ remove_spaces (displayName entityName) @ ''() {\<newline>''
     @ ''  return (\<newline>'' @ ''    <EntityFormComponent \<newline>''
     @ ''      entityName=\"'' @ entityName @ ''\" \<newline>'' @ ''      moduleName=\"''
     @ modName @ ''\"\<newline>'' @ generateEntityApiDoc_text5 @ ''  entityName=\"''
     @ entityName @ ''\" \<newline>'' @ ''  moduleName=\"'' @ modName @ ''\" \<newline>''
     @ ''/>\<newline>'' @ ''\<newline>'' @ ''// Form component\<newline>''
     @ ''<EntityFormComponent \<newline>'' @ ''  entityName=\"'' @ entityName
     @ ''\" \<newline>'' @ ''  moduleName=\"'' @ modName @ ''\"\<newline>''
     @ ''  mode=\"create\"\<newline>'' @ ''/>\<newline>'' @ ''```\<newline>''"

subsection \<open>Writing the tree\<close>

text \<open>
  The generator touches the file system through two statements:
  \<^verbatim>\<open>if (!fs.existsSync(p)) fs.mkdirSync(p, {recursive: true})\<close> and
  \<^verbatim>\<open>fs.writeFileSync(p, content)\<close>. Each function of the script is the list of these
  statements in the order in which it executes them; \<open>perform\<close> executes such a list and
  stops at the first statement that raises, keeping what has been written before. (The
  model does not check that the directory of a written file exists.)
\<close>

datatype op = EnsureDir string | WriteFile string string

definition mkdirSync :: "filesystem \<Rightarrow> string \<Rightarrow> filesystem" where
  "mkdirSync fs p = fs(p \<mapsto> Dir [])"

fun perform :: "op list \<Rightarrow> filesystem \<Rightarrow> js_error option \<times> filesystem" where
  "perform [] fs = (None, fs)"
| "perform (EnsureDir p # rest) fs =
     (if \<not> existsSync fs p then perform rest (mkdirSync fs p) else perform rest fs)"
| "perform (WriteFile p content # rest) fs =
     (case writeFileSync fs p content of
        Inl e \<Rightarrow> (Some e, fs)
      | Inr fs' \<Rightarrow> perform rest fs')"

definition createDirectoryStructure :: "config \<Rightarrow> op list" where
  "createDirectoryStructure cfg =
     map (\<lambda>dir. EnsureDir (path_join (docsPath cfg) dir))
       ([''architecture'', ''frontend'', ''backend'', ''modules'', ''components'', ''testing'',
         ''api-reference'']
        @ concat (map (\<lambda>m. [''modules/'' @ name m, ''api-reference/'' @ name m]) (modules cfg)))"

definition generateArchitectureDocs :: "config \<Rightarrow> op list" where
  "generateArchitectureDocs cfg =
     [WriteFile (path_join (docsPath cfg) ''architecture/overview.mdx'') architectureOverview,
      WriteFile (path_join (docsPath cfg) ''architecture/entity-system.mdx'') (entitySystemDoc cfg),
      WriteFile (path_join (docsPath cfg) ''architecture/dependency-injection.mdx'') diDoc]"

definition generateModuleDocs :: "config \<Rightarrow> op list" where
  "generateModuleDocs cfg =
     WriteFile (path_join (docsPath cfg) ''modules/overview.mdx'') (modulesOverview cfg)
     # map (\<lambda>m. WriteFile (path_join (docsPath cfg) (''modules/'' @ name m @ ''.mdx''))
                   (moduleDoc m))
         (modules cfg)"

definition generateComponentDocs :: "config \<Rightarrow> op list" where
  "generateComponentDocs cfg =
     [WriteFile (path_join (docsPath cfg) ''components/overview.mdx'') componentsOverview]"

definition generateApiReference :: "config \<Rightarrow> op list" where
  "generateApiReference cfg =
     WriteFile (path_join (docsPath cfg) ''api-reference/introduction.mdx'') (apiIntroduction cfg)
     # concat (map (\<lambda>m. map (\<lambda>entity.
                           WriteFile (path_join (docsPath cfg)
                                        (''api-reference/'' @ name m @ ''/'' @ entity @ ''.mdx''))
                                     (generateEntityApiDoc (name m) entity))
                         (entities m))
                 (modules cfg))"

subsection \<open>The navigation manifest\<close>

text \<open>
  A parsed JSON document; an object keeps its properties in order. \<^verbatim>\<open>JSON.parse\<close> and
  \<^verbatim>\<open>JSON.stringify\<close> (with an indentation of 2) belong to the runtime and are
  parameters: \<open>parse\<close> gives \<open>None\<close> where \<^verbatim>\<open>JSON.parse\<close> raises.
\<close>

datatype json =
    JNull
  | JBool bool
  | JNum string
  | JStr string
  | JArr "json list"
  | JObj "(string \<times> json) list"

record json_lib =
  parse :: "string \<Rightarrow> json option"
  stringify :: "json \<Rightarrow> string"

text \<open>
  Reading a property (\<open>None\<close> is \<^verbatim>\<open>undefined\<close>; reading any property of \<^verbatim>\<open>null\<close>
  raises), and assigning to a property of an object.
\<close>

definition get_prop :: "json \<Rightarrow> string \<Rightarrow> js_error + json option" where
  "get_prop v k = (case v of JNull \<Rightarrow> Inl TypeError | JObj kvs \<Rightarrow> Inr (map_of kvs k) | _ \<Rightarrow> Inr None)"

fun set_prop :: "string \<Rightarrow> json \<Rightarrow> (string \<times> json) list \<Rightarrow> (string \<times> json) list" where
  "set_prop k v [] = [(k, v)]"
| "set_prop k v ((k', v') # rest) =
     (if k' = k then (k, v) # rest else (k', v') # set_prop k v rest)"

definition api_groups :: "config \<Rightarrow> json" where
  "api_groups cfg =
     JArr (JObj [(''group'', JStr ''API Documentation''),
                 (''pages'', JArr [JStr ''api-reference/introduction'',
                                   JStr ''api-reference/authentication''])]
           # map (\<lambda>m. JObj [(''group'', JStr (capitalize (name m))),
                            (''pages'', JArr (map (\<lambda>entity. JStr (''api-reference/'' @ name m @ ''/'' @ entity))
                                                (entities m)))])
               (modules cfg))"

text \<open>
  \<^verbatim>\<open>tabs.find(tab => tab.tab === 'API Reference')\<close> followed by the assignment to
  \<^verbatim>\<open>apiTab.groups\<close>: the first tab whose \<^verbatim>\<open>tab\<close> property is that string gets the new
  groups, in place. The result is \<open>None\<close> when no tab is found; the search raises when it
  meets \<^verbatim>\<open>null\<close> first.
\<close>

fun set_api_groups :: "json \<Rightarrow> json list \<Rightarrow> js_error + json list option" where
  "set_api_groups groups [] = Inr None"
| "set_api_groups groups (tab # rest) =
     (case tab of
        JNull \<Rightarrow> Inl TypeError
      | JObj kvs \<Rightarrow>
          if map_of kvs ''tab'' = Some (JStr ''API Reference'')
          then Inr (Some (JObj (set_prop ''groups'' groups kvs) # rest))
          else (case set_api_groups groups rest of
                  Inl e \<Rightarrow> Inl e
                | Inr None \<Rightarrow> Inr None
                | Inr (Some rest') \<Rightarrow> Inr (Some (tab # rest')))
      | _ \<Rightarrow>
          (case set_api_groups groups rest of
             Inl e \<Rightarrow> Inl e
           | Inr None \<Rightarrow> Inr None
           | Inr (Some rest') \<Rightarrow> Inr (Some (tab # rest'))))"

text \<open>
  The document after the update, \<open>None\<close> when there is no such tab. Reading
  \<^verbatim>\<open>docsConfig.navigation.tabs\<close> raises when \<^verbatim>\<open>navigation\<close> is missing, and calling
  \<^verbatim>\<open>find\<close> raises when \<^verbatim>\<open>tabs\<close> is not an array.
\<close>

definition update_navigation :: "config \<Rightarrow> json \<Rightarrow> js_error + json option" where
  "update_navigation cfg docsConfig =
     (case docsConfig of
        JObj root \<Rightarrow>
          (case map_of root ''navigation'' of
             Some (JObj nav) \<Rightarrow>
               (case map_of nav ''tabs'' of
                  Some (JArr tabs) \<Rightarrow>
                    (case set_api_groups (api_groups cfg) tabs of
                       Inl e \<Rightarrow> Inl e
                     | Inr None \<Rightarrow> Inr None
                     | Inr (Some tabs') \<Rightarrow>
                         Inr (Some (JObj (set_prop ''navigation''
                                            (JObj (set_prop ''tabs'' (JArr tabs') nav)) root))))
                | _ \<Rightarrow> Inl TypeError)
           | _ \<Rightarrow> Inl TypeError)
      | _ \<Rightarrow> Inl TypeError)"

definition updateDocsConfig :: "json_lib \<Rightarrow> config \<Rightarrow> filesystem \<Rightarrow> js_error option \<times> filesystem" where
  "updateDocsConfig lib cfg fs =
     (let docsConfigPath = path_join (docsPath cfg) ''docs.json'' in
      case readFileSync fs docsConfigPath of
        Inl e \<Rightarrow> (None, fs)
      | Inr text \<Rightarrow>
          (case parse lib text of
             None \<Rightarrow> (None, fs)
           | Some docsConfig \<Rightarrow>
               (case update_navigation cfg docsConfig of
                  Inl e \<Rightarrow> (Some e, fs)
                | Inr None \<Rightarrow> (None, fs)
                | Inr (Some docsConfig') \<Rightarrow>
                    (case writeFileSync fs docsConfigPath (stringify lib docsConfig') of
                       Inl e \<Rightarrow> (Some e, fs)
                     | Inr fs' \<Rightarrow> (None, fs')))))"

subsection \<open>\<^verbatim>\<open>generateAllDocs\<close>\<close>

text \<open>
  The statements of the \<^verbatim>\<open>try\<close> block in order. The result is the exit code of the
  process (1 after \<^verbatim>\<open>process.exit(1)\<close> in the \<^verbatim>\<open>catch\<close> block, 0 otherwise) and the
  tree that it leaves.
\<close>

definition generateAllDocs :: "json_lib \<Rightarrow> config \<Rightarrow> filesystem \<Rightarrow> nat \<times> filesystem" where
  "generateAllDocs lib cfg fs =
     (case perform (createDirectoryStructure cfg @ generateArchitectureDocs cfg
                    @ generateModuleDocs cfg @ generateComponentDocs cfg
                    @ generateApiReference cfg) fs of
        (Some e, fs') \<Rightarrow> (1, fs')
      | (None, fs') \<Rightarrow>
          (case updateDocsConfig lib cfg fs' of
             (Some e, fs'') \<Rightarrow> (1, fs'')
           | (None, fs'') \<Rightarrow> (0, fs'')))"



subsection \<open>What a list of statements leaves behind\<close>



text \<open>The statements of \<^verbatim>\<open>generateAllDocs\<close> before the update of the manifest.\<close>

definition pages :: "config \<Rightarrow> op list" where
  "pages cfg =
     createDirectoryStructure cfg @ generateArchitectureDocs cfg @ generateModuleDocs cfg
     @ generateComponentDocs cfg @ generateApiReference cfg"



subsection \<open>A concrete run of the generator\<close>

text \<open>
  A configuration with one module, a tree that holds only a manifest whose API tab has no
  groups yet, and JSON functions that know the two documents of this run: the manifest
  before and after the update, with the texts that \<^verbatim>\<open>JSON.stringify\<close> prints for them.
\<close>

definition one_module :: config where
  "one_module =
     \<lparr>srcPath = ''../../agves_app/src'', docsPath = ''.'',
      modules = [\<lparr>name = ''school'', entities = [''student''],
                  hasServices = False, hasTests = False\<rparr>]\<rparr>"

definition manifest_before :: json where
  "manifest_before =
     JObj [(''navigation'',
            JObj [(''tabs'', JArr [JObj [(''tab'', JStr ''API Reference''),
                                         (''groups'', JArr [])]])])]"

definition manifest_after :: json where
  "manifest_after =
     JObj [(''navigation'',
            JObj [(''tabs'', JArr [JObj [(''tab'', JStr ''API Reference''),
                                         (''groups'', api_groups one_module)]])])]"

definition text_before :: string where
  "text_before =
     ''{\<newline>''
     @ ''  \"navigation\": {\<newline>''
     @ ''    \"tabs\": [\<newline>''
     @ ''      {\<newline>''
     @ ''        \"tab\": \"API Reference\",\<newline>''
     @ ''        \"groups\": []\<newline>''
     @ ''      }\<newline>''
     @ ''    ]\<newline>''
     @ ''  }\<newline>''
     @ ''}''"

definition text_after :: string where
  "text_after =
     ''{\<newline>''
     @ ''  \"navigation\": {\<newline>''
     @ ''    \"tabs\": [\<newline>''
     @ ''      {\<newline>''
     @ ''        \"tab\": \"API Reference\",\<newline>''
     @ ''        \"groups\": [\<newline>''
     @ ''          {\<newline>''
     @ ''            \"group\": \"API Documentation\",\<newline>''
     @ ''            \"pages\": [\<newline>''
     @ ''              \"api-reference/introduction\",\<newline>''
     @ ''              \"api-reference/authentication\"\<newline>''
     @ ''            ]\<newline>''
     @ ''          },\<newline>''
     @ ''          {\<newline>''
     @ ''            \"group\": \"School\",\<newline>''
     @ ''            \"pages\": [\<newline>''
     @ ''              \"api-reference/school/student\"\<newline>''
     @ ''            ]\<newline>''
     @ ''          }\<newline>''
     @ ''        ]\<newline>''
     @ ''      }\<newline>''
     @ ''    ]\<newline>''
     @ ''  }\<newline>''
     @ ''}''"

definition two_documents :: json_lib where
  "two_documents =
     \<lparr>parse = (\<lambda>s. if s = text_before then Some manifest_before
                   else if s = text_after then Some manifest_after else None),
      stringify = (\<lambda>v. if v = manifest_after then text_after
                       else if v = manifest_before then text_before else ''null'')\<rparr>"

definition manifest_only :: filesystem where
  "manifest_only = [''./docs.json'' \<mapsto> File text_before]"

text \<open>A path is recognized when at least one of the four patterns occurs in it.\<close>

definition recognized :: "string \<Rightarrow> bool" where
  "recognized p = (js_includes p ''/modules/'' \<or> js_includes p ''generated.d.ts''
     \<or> js_includes p ''/components/'' \<or> js_includes p ''/services/'')"

text \<open>
  The two notions of the classification, stated on the text of a path alone. A text occurs
  in a path; and a name is the module segment of a path when it follows the leftmost
  occurrence of \<^verbatim>\<open>/modules/\<close> in the path and extends to the next slash, or to the end
  of the path.
\<close>

definition occurs :: "string \<Rightarrow> string \<Rightarrow> bool" where
  "occurs sub p = (\<exists>u v. p = u @ sub @ v)"

definition module_segment :: "string \<Rightarrow> string \<Rightarrow> bool" where
  "module_segment p n =
     (\<exists>pre rest. p = pre @ ''/modules/'' @ n @ rest
        \<and> \<not> occurs ''/modules/'' (pre @ ''/modules'')
        \<and> CHR ''/'' \<notin> set n
        \<and> (rest = [] \<or> hd rest = CHR ''/''))"

section \<open>Properties of the Change Detector\<close>

lemma js_includes_split_first: "js_includes s sub = (split_first sub s \<noteq> None)"
  by (induction s) (auto split: option.splits)

lemma js_split_nonempty: "sep \<noteq> [] \<Longrightarrow> js_split sep s \<noteq> []"
  by (subst js_split.simps) (simp split: option.splits)

lemma js_split_two:
  assumes "sep \<noteq> []" and "js_includes s sep"
  shows "\<exists>a b rest. js_split sep s = a # b # rest"
proof -
  from assms(2) obtain a b where sf: "split_first sep s = Some (a, b)"
    by (auto simp: js_includes_split_first)
  from assms(1) have "js_split sep b \<noteq> []" by (rule js_split_nonempty)
  then obtain x xs where "js_split sep b = x # xs" by (cases "js_split sep b") auto
  with sf assms(1) show ?thesis by (subst js_split.simps) simp
qed

lemma moduleName_ok:
  assumes "js_includes p ''/modules/''"
  shows "\<exists>n. moduleName p = Inr n"
proof -
  obtain a b rest where s: "js_split ''/modules/'' p = a # b # rest"
    using js_split_two [OF _ assms] by auto
  have "js_split ''/'' b \<noteq> []" by (rule js_split_nonempty) simp
  then obtain x xs where "js_split ''/'' b = x # xs" by (cases "js_split ''/'' b") auto
  with s show ?thesis by (simp add: moduleName_def nth_opt_def)
qed

lemma analyzeStep_ok:
  "\<exists>a'. analyzeStep a p = Inr a'
     \<and> set (analysis.modules a') = set (analysis.modules a) \<union> {n. js_includes p ''/modules/'' \<and> moduleName p = Inr n}
     \<and> (distinct (analysis.modules a) \<longrightarrow> distinct (analysis.modules a'))
     \<and> types a' = (types a \<or> js_includes p ''generated.d.ts'')
     \<and> components a' = (components a \<or> js_includes p ''/components/'')
     \<and> services a' = (services a \<or> js_includes p ''/services/'')"
proof (cases "js_includes p ''/modules/''")
  case True
  then obtain n where "moduleName p = Inr n" using moduleName_ok by blast
  with True show ?thesis by (auto simp: analyzeStep_def Let_def set_add_def)
next
  case False
  then show ?thesis by (auto simp: analyzeStep_def Let_def)
qed

lemma analyzeStep_unrecognized: "\<not> recognized p \<Longrightarrow> analyzeStep a p = Inr a"
  by (simp add: analyzeStep_def recognized_def)

lemma analyzeLoop_ok:
  "\<exists>a'. analyzeLoop a ps = Inr a'
     \<and> set (analysis.modules a') = set (analysis.modules a) \<union> {n. \<exists>p \<in> set ps. js_includes p ''/modules/'' \<and> moduleName p = Inr n}
     \<and> (distinct (analysis.modules a) \<longrightarrow> distinct (analysis.modules a'))
     \<and> types a' = (types a \<or> (\<exists>p \<in> set ps. js_includes p ''generated.d.ts''))
     \<and> components a' = (components a \<or> (\<exists>p \<in> set ps. js_includes p ''/components/''))
     \<and> services a' = (services a \<or> (\<exists>p \<in> set ps. js_includes p ''/services/''))"
proof (induction ps arbitrary: a)
  case Nil
  then show ?case by simp
next
  case (Cons p ps)
  obtain a1 where s: "analyzeStep a p = Inr a1"
     and m: "set (analysis.modules a1) = set (analysis.modules a) \<union> {n. js_includes p ''/modules/'' \<and> moduleName p = Inr n}"
     and d: "distinct (analysis.modules a) \<longrightarrow> distinct (analysis.modules a1)"
     and t: "types a1 = (types a \<or> js_includes p ''generated.d.ts'')"
     and c: "components a1 = (components a \<or> js_includes p ''/components/'')"
     and v: "services a1 = (services a \<or> js_includes p ''/services/'')"
    using analyzeStep_ok [of a p] by blast
  from Cons.IH [of a1] obtain a' where l: "analyzeLoop a1 ps = Inr a'"
     and m': "set (analysis.modules a') = set (analysis.modules a1) \<union> {n. \<exists>p \<in> set ps. js_includes p ''/modules/'' \<and> moduleName p = Inr n}"
     and d': "distinct (analysis.modules a1) \<longrightarrow> distinct (analysis.modules a')"
     and t': "types a' = (types a1 \<or> (\<exists>p \<in> set ps. js_includes p ''generated.d.ts''))"
     and c': "components a' = (components a1 \<or> (\<exists>p \<in> set ps. js_includes p ''/components/''))"
     and v': "services a' = (services a1 \<or> (\<exists>p \<in> set ps. js_includes p ''/services/''))"
    by blast
  have "analyzeLoop a (p # ps) = Inr a'" using s l by simp
  moreover have "set (analysis.modules a') = set (analysis.modules a) \<union> {n. \<exists>q \<in> set (p # ps). js_includes q ''/modules/'' \<and> moduleName q = Inr n}"
    using m m' by auto
  moreover have "distinct (analysis.modules a) \<longrightarrow> distinct (analysis.modules a')" using d d' by blast
  moreover have "types a' = (types a \<or> (\<exists>q \<in> set (p # ps). js_includes q ''generated.d.ts''))"
    using t t' by auto
  moreover have "components a' = (components a \<or> (\<exists>q \<in> set (p # ps). js_includes q ''/components/''))"
    using c c' by auto
  moreover have "services a' = (services a \<or> (\<exists>q \<in> set (p # ps). js_includes q ''/services/''))"
    using v v' by auto
  ultimately show ?case by blast
qed

lemma analyzeLoop_filter: "analyzeLoop a (filter recognized ps) = analyzeLoop a ps"
proof (induction ps arbitrary: a)
  case Nil show ?case by simp
next
  case (Cons p ps)
  show ?case
  proof (cases "recognized p")
    case True
    then show ?thesis using Cons.IH by (simp split: sum.splits)
  next
    case False
    then show ?thesis using Cons.IH by (simp add: analyzeStep_unrecognized)
  qed
qed

lemma split_example_modules:
  "js_split ''/modules/'' ''root/modules/sales/entities/order.x''
     = [''root'', ''sales/entities/order.x'']"
  by (simp add: js_split.simps)

lemma split_example_slash:
  "js_split ''/'' ''sales/entities/order.x'' = [''sales'', ''entities'', ''order.x'']"
  by (simp add: js_split.simps)

lemma analyzeChanges_example:
  "analyzeChanges [''root/modules/sales/entities/order.x'', ''root/generated.d.ts'']
     = Inr \<lparr>analysis.modules = [''sales''], types = True, components = False, services = False\<rparr>"
  by (simp add: analyzeChanges_def analyzeStep_def moduleName_def nth_opt_def
      split_example_modules split_example_slash set_add_def)

lemma startsWith_iff: "startsWith s p = (\<exists>t. s = p @ t)"
  by (induction s p rule: startsWith.induct) auto

lemma js_includes_iff: "js_includes s sub = (\<exists>u v. s = u @ sub @ v)"
proof (induction s)
  case Nil
  show ?case by auto
next
  case (Cons c cs)
  show ?case
  proof
    assume "js_includes (c # cs) sub"
    then consider "startsWith (c # cs) sub" | "js_includes cs sub" by auto
    then show "\<exists>u v. c # cs = u @ sub @ v"
    proof cases
      case 1
      then obtain t where "c # cs = sub @ t" by (auto simp: startsWith_iff)
      then have "c # cs = [] @ sub @ t" by simp
      then show ?thesis by blast
    next
      case 2
      with Cons.IH obtain u v where "cs = u @ sub @ v" by blast
      then have "c # cs = (c # u) @ sub @ v" by simp
      then show ?thesis by blast
    qed
  next
    assume "\<exists>u v. c # cs = u @ sub @ v"
    then obtain u v where e: "c # cs = u @ sub @ v" by blast
    show "js_includes (c # cs) sub"
    proof (cases u)
      case Nil
      with e have "startsWith (c # cs) sub" by (auto simp: startsWith_iff)
      then show ?thesis by simp
    next
      case (Cons d u')
      with e have "cs = u' @ sub @ v" by simp
      with Cons.IH have "js_includes cs sub" by blast
      then show ?thesis by simp
    qed
  qed
qed

lemma js_includes_length: "js_includes s sub \<Longrightarrow> length sub \<le> length s"
  by (auto simp: js_includes_iff)

lemma startsWith_append: "startsWith x p \<Longrightarrow> startsWith (x @ y) p"
  by (auto simp: startsWith_iff)

lemma startsWith_shorten:
  assumes "startsWith (x @ y) p" and "length p \<le> length x"
  shows "startsWith x p"
proof -
  from assms(1) obtain t where t: "x @ y = p @ t" by (auto simp: startsWith_iff)
  then have "take (length p) (x @ y) = p" by simp
  with assms(2) have "take (length p) x = p" by simp
  then have "x = p @ drop (length p) x" by (metis append_take_drop_id)
  then show ?thesis unfolding startsWith_iff by blast
qed

lemma split_first_sound:
  assumes "sep \<noteq> []" and "split_first sep s = Some (a, b)"
  shows "s = a @ sep @ b \<and> \<not> js_includes (a @ butlast sep) sep"
  using assms(2)
proof (induction s arbitrary: a)
  case Nil
  with assms(1) show ?case by simp
next
  case (Cons c cs)
  show ?case
  proof (cases "startsWith (c # cs) sep")
    case True
    with Cons.prems have a: "a = []" and b: "b = drop (length sep) (c # cs)" by auto
    from True obtain t where t: "c # cs = sep @ t" by (auto simp: startsWith_iff)
    then have "drop (length sep) (c # cs) = t" by (metis append_eq_conv_conj)
    with t b have "c # cs = sep @ b" by simp
    moreover have "\<not> js_includes (butlast sep) sep"
    proof
      assume "js_includes (butlast sep) sep"
      then have "length sep \<le> length (butlast sep)" by (rule js_includes_length)
      then have "length sep \<le> length sep - 1" by (simp only: length_butlast)
      moreover have "length sep \<noteq> 0" using assms(1) by simp
      ultimately show False by arith
    qed
    ultimately show ?thesis using a by simp
  next
    case False
    with Cons.prems obtain a' where s: "split_first sep cs = Some (a', b)" and a: "a = c # a'"
      by (auto split: option.splits)
    from Cons.IH [OF s] have cs: "cs = a' @ sep @ b" and n: "\<not> js_includes (a' @ butlast sep) sep"
      by simp_all
    have "\<not> startsWith (c # a' @ butlast sep) sep"
    proof
      assume "startsWith (c # a' @ butlast sep) sep"
      then have "startsWith ((c # a' @ butlast sep) @ [last sep] @ b) sep" by (rule startsWith_append)
      moreover have "(c # a' @ butlast sep) @ [last sep] @ b = c # cs"
        using cs assms(1) by simp
      ultimately show False using False by simp
    qed
    with n cs a show ?thesis by simp
  qed
qed

lemma split_first_complete:
  assumes "sep \<noteq> []" and "\<not> js_includes (a @ butlast sep) sep"
  shows "split_first sep (a @ sep @ b) = Some (a, b)"
  using assms(2)
proof (induction a)
  case Nil
  from assms(1) obtain c cs where c: "sep @ b = c # cs" by (cases sep) auto
  have "startsWith (sep @ b) sep" by (auto simp: startsWith_iff)
  with c show ?case by (metis append_Nil append_eq_conv_conj split_first.simps(2))
next
  case (Cons c a')
  from Cons.prems have n1: "\<not> startsWith (c # a' @ butlast sep) sep"
    and n2: "\<not> js_includes (a' @ butlast sep) sep" by simp_all
  have "\<not> startsWith (c # a' @ sep @ b) sep"
  proof
    assume "startsWith (c # a' @ sep @ b) sep"
    moreover have "c # a' @ sep @ b = (c # a' @ butlast sep) @ [last sep] @ b"
      using assms(1) by simp
    ultimately have "startsWith ((c # a' @ butlast sep) @ [last sep] @ b) sep" by simp
    moreover have "length sep \<le> length (c # a' @ butlast sep)" by simp
    ultimately have "startsWith (c # a' @ butlast sep) sep" by (rule startsWith_shorten)
    with n1 show False by simp
  qed
  with Cons.IH [OF n2] show ?case by simp
qed

lemma split_first_char:
  "split_first [c] s =
     (if c \<in> set s then Some (takeWhile (\<lambda>d. d \<noteq> c) s, tl (dropWhile (\<lambda>d. d \<noteq> c) s)) else None)"
  by (induction s) auto

lemma js_split_char_first: "\<exists>rest. js_split [c] s = takeWhile (\<lambda>d. d \<noteq> c) s # rest"
proof (cases "c \<in> set s")
  case True
  then show ?thesis by (subst js_split.simps) (simp add: split_first_char)
next
  case False
  then have tw: "takeWhile (\<lambda>d. d \<noteq> c) s = s" by (induction s) auto
  have "js_split [c] s = [s]" using False by (subst js_split.simps) (simp add: split_first_char)
  then have "js_split [c] s = takeWhile (\<lambda>d. d \<noteq> c) s # []" unfolding tw .
  then show ?thesis by blast
qed

lemma takeWhile_stop: "\<not> P y \<Longrightarrow> takeWhile P (xs @ y # ys) = takeWhile P xs"
  by (induction xs) auto

lemma moduleName_eq:
  assumes "split_first ''/modules/'' p = Some (a, b)"
  shows "moduleName p = Inr (takeWhile (\<lambda>c. c \<noteq> CHR ''/'') b)"
proof -
  let ?sep = "''/modules/''"
  let ?P = "\<lambda>c. c \<noteq> CHR ''/''"
  obtain x xs where x: "js_split ?sep b = x # xs" and tx: "takeWhile ?P x = takeWhile ?P b"
  proof (cases "split_first ?sep b")
    case None
    then have "js_split ?sep b = [b]" by (subst js_split.simps) simp
    then show ?thesis by (intro that [of b "[]"]) simp_all
  next
    case (Some ab)
    obtain a2 b2 where ab: "ab = (a2, b2)" by (cases ab)
    from split_first_sound [OF _ Some [unfolded ab]] have "b = a2 @ ?sep @ b2" by simp
    then have "takeWhile ?P b = takeWhile ?P a2" by (simp add: takeWhile_stop)
    moreover have "js_split ?sep b = a2 # js_split ?sep b2"
      using Some ab by (subst js_split.simps) simp
    ultimately show ?thesis by (intro that [of a2 "js_split ?sep b2"]) simp_all
  qed
  have s: "js_split ?sep p = a # x # xs" using assms x by (subst js_split.simps) simp
  obtain rest where r: "js_split ''/'' x = takeWhile ?P x # rest"
    using js_split_char_first [of "CHR ''/''" x] by blast
  show ?thesis using s r tx by (simp add: moduleName_def nth_opt_def)
qed

lemma moduleName_segment:
  assumes "\<forall>u v. pre @ ''/modules'' \<noteq> u @ ''/modules/'' @ v"
    and "CHR ''/'' \<notin> set n" and "rest = [] \<or> hd rest = CHR ''/''"
  shows "moduleName (pre @ ''/modules/'' @ n @ rest) = Inr n"
    and "js_includes (pre @ ''/modules/'' @ n @ rest) ''/modules/''"
proof -
  let ?P = "\<lambda>c. c \<noteq> CHR ''/''"
  have "\<not> js_includes (pre @ butlast ''/modules/'') ''/modules/''"
    using assms(1) by (simp add: js_includes_iff)
  then have "split_first ''/modules/'' (pre @ ''/modules/'' @ (n @ rest)) = Some (pre, n @ rest)"
    by (intro split_first_complete) simp_all
  from moduleName_eq [OF this]
  have "moduleName (pre @ ''/modules/'' @ n @ rest) = Inr (takeWhile ?P (n @ rest))" by simp
  moreover have "takeWhile ?P rest = []" using assms(3) by (cases rest) auto
  then have "takeWhile ?P (n @ rest) = n" using assms(2) by (induction n) auto
  ultimately show "moduleName (pre @ ''/modules/'' @ n @ rest) = Inr n" by simp
  show "js_includes (pre @ ''/modules/'' @ n @ rest) ''/modules/''"
    unfolding js_includes_iff by blast
qed

lemma moduleName_decompose:
  assumes "js_includes p ''/modules/''" and "moduleName p = Inr n"
  shows "\<exists>pre rest. p = pre @ ''/modules/'' @ n @ rest
     \<and> (\<forall>u v. pre @ ''/modules'' \<noteq> u @ ''/modules/'' @ v)
     \<and> CHR ''/'' \<notin> set n \<and> (rest = [] \<or> hd rest = CHR ''/'')"
proof -
  let ?P = "\<lambda>c. c \<noteq> CHR ''/''"
  from assms(1) obtain a b where sf: "split_first ''/modules/'' p = Some (a, b)"
    by (auto simp: js_includes_split_first)
  from split_first_sound [OF _ sf] have p: "p = a @ ''/modules/'' @ b"
    and f: "\<not> js_includes (a @ ''/modules'') ''/modules/''" by simp_all
  from moduleName_eq [OF sf] assms(2) have n: "n = takeWhile ?P b" by simp
  have "p = a @ ''/modules/'' @ n @ dropWhile ?P b" using p n by simp
  moreover have "\<forall>u v. a @ ''/modules'' \<noteq> u @ ''/modules/'' @ v"
    using f by (simp add: js_includes_iff)
  moreover have "CHR ''/'' \<notin> set n" using n by (auto dest: set_takeWhileD)
  moreover have "dropWhile ?P b = [] \<or> hd (dropWhile ?P b) = CHR ''/''"
    using hd_dropWhile [of ?P b] by auto
  ultimately show ?thesis by blast
qed

lemma js_includes_occurs: "js_includes p sub = occurs sub p"
  by (simp add: js_includes_iff occurs_def)

lemma moduleName_module_segment:
  "(js_includes p ''/modules/'' \<and> moduleName p = Inr n) = module_segment p n"
proof
  assume "js_includes p ''/modules/'' \<and> moduleName p = Inr n"
  then show "module_segment p n"
    using moduleName_decompose [of p n] unfolding module_segment_def occurs_def by blast
next
  assume "module_segment p n"
  then obtain pre rest where p: "p = pre @ ''/modules/'' @ n @ rest"
    and f: "\<forall>u v. pre @ ''/modules'' \<noteq> u @ ''/modules/'' @ v"
    and n: "CHR ''/'' \<notin> set n" and r: "rest = [] \<or> hd rest = CHR ''/''"
    unfolding module_segment_def occurs_def by blast
  from moduleName_segment [OF f n r] p
  show "js_includes p ''/modules/'' \<and> moduleName p = Inr n" by simp
qed

lemma recognized_occurs:
  "recognized = (\<lambda>p. occurs ''/modules/'' p \<or> occurs ''generated.d.ts'' p
                   \<or> occurs ''/components/'' p \<or> occurs ''/services/'' p)"
  by (rule ext) (simp add: recognized_def js_includes_occurs)

lemma analyzeChanges_example_two:
  "analyzeChanges [''app/modules/school/entities/student.tsx'', ''app/modules/hr/services/payroll.ts'',
                   ''app/modules/school/index.ts'']
     = Inr \<lparr>analysis.modules = [''school'', ''hr''], types = False, components = False, services = True\<rparr>"
  by (simp add: analyzeChanges_def analyzeStep_def moduleName_def nth_opt_def js_split.simps set_add_def)

text \<open>
  Claim C5. \<^verbatim>\<open>analyzeChanges\<close> is a function of its list of paths alone and never
  raises. Its module set (duplicate-free) holds exactly the module segments of the paths: for
  every path in which \<^verbatim>\<open>/modules/\<close> occurs, the name that follows its leftmost
  occurrence, up to the next slash. A path in which \<^verbatim>\<open>generated.d.ts\<close> occurs sets the
  types flag, a path in which \<^verbatim>\<open>/components/\<close> occurs sets the components flag
  (likewise \<^verbatim>\<open>/services/\<close>), and the paths in which none of these patterns occurs
  have no effect on the result. On the two paths of the specification's example the result is
  the module set \<open>{sales}\<close>, types changed, components unchanged; paths of two other
  modules give these two modules, in the order of their first path.
\<close>

theorem analyzeChanges_classification:
  "(\<exists>a. analyzeChanges ps = Inr a
      \<and> set (analysis.modules a) = {n. \<exists>p \<in> set ps. js_includes p ''/modules/'' \<and> moduleName p = Inr n}
      \<and> set (analysis.modules a) = {n. \<exists>p \<in> set ps. module_segment p n}
      \<and> distinct (analysis.modules a)
      \<and> types a = (\<exists>p \<in> set ps. js_includes p ''generated.d.ts'')
      \<and> types a = (\<exists>p \<in> set ps. occurs ''generated.d.ts'' p)
      \<and> components a = (\<exists>p \<in> set ps. js_includes p ''/components/'')
      \<and> components a = (\<exists>p \<in> set ps. occurs ''/components/'' p)
      \<and> services a = (\<exists>p \<in> set ps. js_includes p ''/services/'')
      \<and> services a = (\<exists>p \<in> set ps. occurs ''/services/'' p)
      \<and> analyzeChanges (filter recognized ps) = Inr a
      \<and> analyzeChanges (filter (\<lambda>p. occurs ''/modules/'' p \<or> occurs ''generated.d.ts'' p
                                     \<or> occurs ''/components/'' p \<or> occurs ''/services/'' p) ps) = Inr a)
   \<and> analyzeChanges [''root/modules/sales/entities/order.x'', ''root/generated.d.ts'']
       = Inr \<lparr>analysis.modules = [''sales''], types = True, components = False, services = False\<rparr>
   \<and> analyzeChanges [''app/modules/school/entities/student.tsx'', ''app/modules/hr/services/payroll.ts'',
                      ''app/modules/school/index.ts'']
       = Inr \<lparr>analysis.modules = [''school'', ''hr''], types = False, components = False, services = True\<rparr>"
proof -
  let ?a0 = "\<lparr>analysis.modules = [], types = False, components = False, services = False\<rparr>"
  from analyzeLoop_ok [of ?a0 ps] obtain a where a:
    "analyzeLoop ?a0 ps = Inr a"
    "set (analysis.modules a) = set (analysis.modules ?a0) \<union> {n. \<exists>p \<in> set ps. js_includes p ''/modules/'' \<and> moduleName p = Inr n}"
    "distinct (analysis.modules ?a0) \<longrightarrow> distinct (analysis.modules a)"
    "types a = (types ?a0 \<or> (\<exists>p \<in> set ps. js_includes p ''generated.d.ts''))"
    "components a = (components ?a0 \<or> (\<exists>p \<in> set ps. js_includes p ''/components/''))"
    "services a = (services ?a0 \<or> (\<exists>p \<in> set ps. js_includes p ''/services/''))"
    by blast
  have c1: "analyzeChanges ps = Inr a" using a(1) by (simp add: analyzeChanges_def)
  have c2: "set (analysis.modules a) = {n. \<exists>p \<in> set ps. js_includes p ''/modules/'' \<and> moduleName p = Inr n}"
    using a(2) by simp
  have c3: "set (analysis.modules a) = {n. \<exists>p \<in> set ps. module_segment p n}"
    unfolding c2 by (simp only: moduleName_module_segment)
  have c4: "distinct (analysis.modules a)" using a(3) by simp
  have c5: "types a = (\<exists>p \<in> set ps. js_includes p ''generated.d.ts'')" using a(4) by simp
  have c6: "types a = (\<exists>p \<in> set ps. occurs ''generated.d.ts'' p)"
    unfolding c5 by (simp only: js_includes_occurs)
  have c7: "components a = (\<exists>p \<in> set ps. js_includes p ''/components/'')" using a(5) by simp
  have c8: "components a = (\<exists>p \<in> set ps. occurs ''/components/'' p)"
    unfolding c7 by (simp only: js_includes_occurs)
  have c9: "services a = (\<exists>p \<in> set ps. js_includes p ''/services/'')" using a(6) by simp
  have c10: "services a = (\<exists>p \<in> set ps. occurs ''/services/'' p)"
    unfolding c9 by (simp only: js_includes_occurs)
  have c11: "analyzeChanges (filter recognized ps) = Inr a"
    using a(1) by (simp add: analyzeChanges_def analyzeLoop_filter)
  have c12: "analyzeChanges (filter (\<lambda>p. occurs ''/modules/'' p \<or> occurs ''generated.d.ts'' p
                                     \<or> occurs ''/components/'' p \<or> occurs ''/services/'' p) ps) = Inr a"
    using c11 by (simp only: recognized_occurs)
  from c1 c2 c3 c4 c5 c6 c7 c8 c9 c10 c11 c12
  have "\<exists>a. analyzeChanges ps = Inr a
      \<and> set (analysis.modules a) = {n. \<exists>p \<in> set ps. js_includes p ''/modules/'' \<and> moduleName p = Inr n}
      \<and> set (analysis.modules a) = {n. \<exists>p \<in> set ps. module_segment p n}
      \<and> distinct (analysis.modules a)
      \<and> types a = (\<exists>p \<in> set ps. js_includes p ''generated.d.ts'')
      \<and> types a = (\<exists>p \<in> set ps. occurs ''generated.d.ts'' p)
      \<and> components a = (\<exists>p \<in> set ps. js_includes p ''/components/'')
      \<and> components a = (\<exists>p \<in> set ps. occurs ''/components/'' p)
      \<and> services a = (\<exists>p \<in> set ps. js_includes p ''/services/'')
      \<and> services a = (\<exists>p \<in> set ps. occurs ''/services/'' p)
      \<and> analyzeChanges (filter recognized ps) = Inr a
      \<and> analyzeChanges (filter (\<lambda>p. occurs ''/modules/'' p \<or> occurs ''generated.d.ts'' p
                                     \<or> occurs ''/components/'' p \<or> occurs ''/services/'' p) ps) = Inr a"
    by (intro exI [of _ a] conjI)
  then show ?thesis using analyzeChanges_example analyzeChanges_example_two by (intro conjI)
qed

lemma witness_segments:
  "module_segment ''app/src/modules/school/entities/student.tsx'' ''school''"
  "module_segment ''app/src/modules/hr'' ''hr''"
proof -
  have n: "\<not> occurs ''/modules/'' ''app/src/modules''"
    by (simp add: js_includes_occurs [symmetric])
  have "''app/src/modules/school/entities/student.tsx''
          = ''app/src'' @ ''/modules/'' @ ''school'' @ ''/entities/student.tsx''" by simp
  with n show "module_segment ''app/src/modules/school/entities/student.tsx'' ''school''"
    unfolding module_segment_def
    by (intro exI [of _ "''app/src''"] exI [of _ "''/entities/student.tsx''"]) simp
  have "''app/src/modules/hr'' = ''app/src'' @ ''/modules/'' @ ''hr'' @ []" by simp
  with n show "module_segment ''app/src/modules/hr'' ''hr''"
    unfolding module_segment_def
    by (intro exI [of _ "''app/src''"] exI [of _ "[]"]) simp
qed

theorem analyzeChanges_classification_witness:
  "\<exists>a. analyzeChanges [''app/src/modules/school/entities/student.tsx'', ''README.md'',
                         ''app/src/components/Button.tsx'', ''app/src/modules/hr''] = Inr a
     \<and> ''school'' \<in> set (analysis.modules a) \<and> ''hr'' \<in> set (analysis.modules a)
     \<and> \<not> types a \<and> components a \<and> \<not> services a
     \<and> analyzeChanges [''app/src/modules/school/entities/student.tsx'',
                         ''app/src/components/Button.tsx'', ''app/src/modules/hr''] = Inr a"
  using analyzeChanges_classification
      [of "[''app/src/modules/school/entities/student.tsx'', ''README.md'',
            ''app/src/components/Button.tsx'', ''app/src/modules/hr'']"]
    witness_segments
  by (auto simp: recognized_def)

section \<open>Properties of the Change Aggregator\<close>

lemma step_refl: "step st st []" by (simp add: step_def)

lemma step_trans: "step a b x \<Longrightarrow> step b c y \<Longrightarrow> step a c (x @ y)"
  by (simp add: step_def)

lemma step_log: "arrived (Log l) = [] \<Longrightarrow> step st (log l st) [Log l]"
  by (simp add: step_def log_def)

lemma step_deliver: "step st (deliver ev st) [Log (fs_log ev)]"
  by (cases ev) (simp_all add: step_def fs_log_def handleFileChange_def handleFileDelete_def log_def)

lemma env_deliver: "env (deliver ev st) = env st"
  by (cases ev) (simp_all add: handleFileChange_def handleFileDelete_def log_def)

lemma step_fold_deliver: "step st (fold deliver evs st) (map (\<lambda>ev. Log (fs_log ev)) evs)"
proof (induction evs arbitrary: st)
  case Nil show ?case by (simp add: step_refl)
next
  case (Cons ev evs)
  from step_trans [OF step_deliver [of st ev] Cons.IH [of "deliver ev st"]]
  show ?case by simp
qed

lemma env_fold_deliver: "env (fold deliver evs st) = env st"
  by (induction evs arbitrary: st) (simp_all add: env_deliver)

lemma step_execAsync:
  assumes "execAsync w cmd st = (r, st1)"
  shows "step st st1 (Exec cmd r # map (\<lambda>ev. Log (fs_log ev)) (arrivals w (trace st @ [Exec cmd r])))"
    and "env st1 = env st" and "r = exec w (trace st) (env st) cmd"
proof -
  let ?r = "exec w (trace st) (env st) cmd"
  let ?st = "st\<lparr>trace := trace st @ [Exec cmd ?r]\<rparr>"
  from assms have r: "r = ?r" and st1: "st1 = fold deliver (arrivals w (trace ?st)) ?st"
    by (auto simp: execAsync_def Let_def)
  have "step st ?st [Exec cmd ?r]" by (simp add: step_def)
  from step_trans [OF this step_fold_deliver [of ?st "arrivals w (trace ?st)"]]
  show "step st st1 (Exec cmd r # map (\<lambda>ev. Log (fs_log ev)) (arrivals w (trace st @ [Exec cmd r])))"
    using r st1 by simp
  show "env st1 = env st" using st1 by (simp add: env_fold_deliver)
  show "r = exec w (trace st) (env st) cmd" by (rule r)
qed

lemma spec_refl: "spec P st st"
  by (auto simp: spec_def failures_logged_def intro: step_refl)

lemma fl_append: "failures_logged x \<Longrightarrow> failures_logged y \<Longrightarrow> failures_logged (x @ y)"
  by (auto simp: failures_logged_def)

lemma fl_files: "failures_logged (map (\<lambda>ev. Log (fs_log ev)) evs)"
  by (induction evs) (auto simp: failures_logged_def fs_log_def split: fs_event.splits)

lemma P_files: "file_ok P \<Longrightarrow> e \<in> set (map (\<lambda>ev. Log (fs_log ev)) evs) \<Longrightarrow> P e"
  by (auto simp: file_ok_def fs_log_def split: fs_event.splits)

lemma spec_exec_ok:
  assumes "execAsync w cmd st = (ExecOk out, st1)" and "spec P st1 st2" and "P (Exec cmd (ExecOk out))" and "file_ok P"
  shows "spec P st st2"
proof -
  let ?x = "Exec cmd (ExecOk out) # map (\<lambda>ev. Log (fs_log ev)) (arrivals w (trace st @ [Exec cmd (ExecOk out)]))"
  from assms(2) obtain new where n: "step st1 st2 new" "\<forall>e \<in> set new. P e" "failures_logged new" "env st2 = env st1"
    by (auto simp: spec_def)
  have s: "step st st2 (?x @ new)" by (rule step_trans [OF step_execAsync(1) [OF assms(1)] n(1)])
  have "failures_logged ?x" using fl_files [of "arrivals w (trace st @ [Exec cmd (ExecOk out)])"]
    by (simp add: failures_logged_def)
  then have f: "failures_logged (?x @ new)" using n(3) by (rule fl_append)
  have p: "\<forall>e \<in> set (?x @ new). P e" using n(2) assms(3) P_files [OF assms(4)] by auto
  have "env st2 = env st" using n(4) step_execAsync(2) [OF assms(1)] by simp
  with s f p show ?thesis unfolding spec_def by blast
qed

lemma spec_exec_fail:
  assumes "execAsync w cmd st = (ExecFail e, st1)" and "P (Exec cmd (ExecFail e))" and "P (Log l)"
    and "file_ok P" and "reported (Log l) = [e]" and "arrived (Log l) = []"
  shows "spec P st (log l st1)"
proof -
  let ?x = "Exec cmd (ExecFail e) # map (\<lambda>ev. Log (fs_log ev)) (arrivals w (trace st @ [Exec cmd (ExecFail e)]))"
  have s: "step st (log l st1) (?x @ [Log l])"
    by (rule step_trans [OF step_execAsync(1) [OF assms(1)] step_log [OF assms(6)]])
  have f: "failures_logged (?x @ [Log l])"
    using fl_files [of "arrivals w (trace st @ [Exec cmd (ExecFail e)])"] assms(5)
    by (auto simp: failures_logged_def)
  have p: "\<forall>e \<in> set (?x @ [Log l]). P e" using assms(2,3) P_files [OF assms(4)] by auto
  have "env (log l st1) = env st" using step_execAsync(2) [OF assms(1)] by (simp add: log_def)
  with s f p show ?thesis unfolding spec_def by blast
qed

lemma spec_log:
  assumes "spec P st st1" and "P (Log l)" and "arrived (Log l) = []" and "reported (Log l) = []"
  shows "spec P st (log l st1)"
proof -
  from assms(1) obtain new where n: "step st st1 new" "\<forall>e \<in> set new. P e" "failures_logged new" "env st1 = env st"
    by (auto simp: spec_def)
  have s: "step st (log l st1) (new @ [Log l])" by (rule step_trans [OF n(1) step_log [OF assms(3)]])
  have f: "failures_logged (new @ [Log l])" using n(3) assms(4) by (auto simp: failures_logged_def)
  have "env (log l st1) = env st" using n(4) by (simp add: log_def)
  with s f n(2) assms(2) show ?thesis unfolding spec_def
    by (intro exI [of _ "new @ [Log l]"]) auto
qed

lemma commit_event_simps [simp]:
  "file_ok commit_event"
  "commit_event (Exec (CHR ''g'' # cmd) r)"
  "commit_event (Log Committed)"
  "commit_event (Log (CommitFailed e))"
  by (simp_all add: commit_event_def file_ok_def)

lemma commitChanges_spec: "spec commit_event st (commitChanges w m a st)"
proof -
  let ?P = commit_event
  obtain r1 st1 where e1: "execAsync w ''git status --porcelain'' st = (r1, st1)"
    by (cases "execAsync w ''git status --porcelain'' st")
  show ?thesis
  proof (cases r1)
    case (ExecFail e)
    with e1 show ?thesis
      by (simp add: commitChanges_def) (rule spec_exec_fail [OF e1 [unfolded ExecFail]], simp_all)
  next
    case (ExecOk out)
    note e1' = e1 [unfolded ExecOk]
    show ?thesis
    proof (cases "trim out \<noteq> []")
      case False
      with e1' show ?thesis
        by (simp add: commitChanges_def) (rule spec_exec_ok [OF e1' spec_refl], simp_all)
    next
      case True
      let ?msg = "detailedMessage m a (now w (trace st1))"
      obtain r2 st2 where e2: "execAsync w ''git add .'' st1 = (r2, st2)"
        by (cases "execAsync w ''git add .'' st1")
      have "spec ?P st1 (commitChanges w m a st)"
      proof (cases r2)
        case (ExecFail e)
        with e1' e2 True show ?thesis
          by (simp add: commitChanges_def) (rule spec_exec_fail [OF e2 [unfolded ExecFail]], simp_all)
      next
        case (ExecOk out2)
        note e2' = e2 [unfolded ExecOk]
        obtain r3 st3 where e3: "execAsync w (''git commit -m \"'' @ ?msg @ ''\"'') st2 = (r3, st3)"
          by (cases "execAsync w (''git commit -m \"'' @ ?msg @ ''\"'') st2")
        have "spec ?P st2 (commitChanges w m a st)"
        proof (cases r3)
          case (ExecFail e)
          with e1' e2' e3 True show ?thesis
            by (simp add: commitChanges_def) (rule spec_exec_fail [OF e3 [unfolded ExecFail]], simp_all)
        next
          case (ExecOk out3)
          note e3' = e3 [unfolded ExecOk]
          have "spec ?P st3 (commitChanges w m a st)"
          proof (cases "env st3 ''AUTO_PUSH'' = Some ''true''")
            case False
            with e1' e2' e3' True show ?thesis
              by (simp add: commitChanges_def) (rule spec_log [OF spec_refl], simp_all)
          next
            case push: True
            obtain r4 st4 where e4: "execAsync w ''git push'' st3 = (r4, st4)"
              by (cases "execAsync w ''git push'' st3")
            show ?thesis
            proof (cases r4)
              case (ExecFail e)
              with e1' e2' e3' e4 True push show ?thesis
                by (simp add: commitChanges_def) (rule spec_exec_fail [OF e4 [unfolded ExecFail]], simp_all)
            next
              case (ExecOk out4)
              with e1' e2' e3' e4 True push show ?thesis
                by (simp add: commitChanges_def)
                   (rule spec_exec_ok [OF e4 [unfolded ExecOk] spec_log [OF spec_refl]], simp_all)
            qed
          qed
          then show ?thesis by (rule spec_exec_ok [OF e3']) simp_all
        qed
        then show ?thesis by (rule spec_exec_ok [OF e2']) simp_all
      qed
      then show ?thesis by (rule spec_exec_ok [OF e1']) simp_all
    qed
  qed
qed

lemma spec_mono: "spec P st st' \<Longrightarrow> (\<And>e. P e \<Longrightarrow> Q e) \<Longrightarrow> spec Q st st'"
  unfolding spec_def by blast

lemma not_ai_simps [simp]:
  "file_ok not_ai" "not_ai (Exec ''npm run sync:types'' r)" "not_ai (Exec ''node scripts/generate-docs.js'' r)"
  "not_ai (Log (QuickFailed e))" "commit_event ev \<Longrightarrow> not_ai ev"
  by (simp_all add: not_ai_def file_ok_def commit_event_def)

lemma not_regen_simps [simp]:
  "file_ok not_regen" "not_regen (Exec ''node scripts/enhance-with-ai.js'' r)"
  "not_regen (Log (AIFailed e))" "not_regen (Log NoKeys)" "commit_event ev \<Longrightarrow> not_regen ev"
  by (simp_all add: not_regen_def file_ok_def commit_event_def)

lemma quickUpdate_spec: "spec not_ai (log QuickRunning st) (quickUpdate w a st)"
proof -
  let ?st0 = "log QuickRunning st"
  have gen: "spec not_ai st1
     (case execAsync w ''node scripts/generate-docs.js'' st1 of
        (ExecFail e, st2) \<Rightarrow> log (QuickFailed e) st2
      | (ExecOk _, st2) \<Rightarrow> commitChanges w quick_title a st2)" for st1
  proof -
    obtain r st2 where e: "execAsync w ''node scripts/generate-docs.js'' st1 = (r, st2)"
      by (cases "execAsync w ''node scripts/generate-docs.js'' st1")
    show ?thesis
    proof (cases r)
      case (ExecFail x)
      with e show ?thesis by simp (rule spec_exec_fail [OF e [unfolded ExecFail]], simp_all)
    next
      case (ExecOk out)
      have "spec not_ai st2 (commitChanges w quick_title a st2)"
        by (rule spec_mono [OF commitChanges_spec]) simp
      with e ExecOk show ?thesis by simp (rule spec_exec_ok [OF e [unfolded ExecOk]], simp_all)
    qed
  qed
  show ?thesis
  proof (cases "types a")
    case False
    then show ?thesis using gen [of ?st0] by (simp add: quickUpdate_def)
  next
    case True
    obtain r st1 where e: "execAsync w ''npm run sync:types'' ?st0 = (r, st1)"
      by (cases "execAsync w ''npm run sync:types'' ?st0")
    show ?thesis
    proof (cases r)
      case (ExecFail x)
      with e True show ?thesis
        by (simp add: quickUpdate_def) (rule spec_exec_fail [OF e [unfolded ExecFail]], simp_all)
    next
      case (ExecOk out)
      with e True show ?thesis
        by (simp add: quickUpdate_def) (rule spec_exec_ok [OF e [unfolded ExecOk] gen], simp_all)
    qed
  qed
qed

lemma aiEnhancedUpdate_spec:
  "\<exists>new. step st (aiEnhancedUpdate w a st) (Log AIRunning # new)
      \<and> (\<forall>e \<in> set new. not_regen e) \<and> failures_logged new
      \<and> env (aiEnhancedUpdate w a st) = (if has_keys (env st) then ai_env a (env st) else env st)"
proof (cases "has_keys (env st)")
  case False
  then have "aiEnhancedUpdate w a st = log NoKeys (log AIRunning st)"
    by (simp add: aiEnhancedUpdate_def has_keys_def log_def)
  moreover have "step st (log NoKeys (log AIRunning st)) (Log AIRunning # [Log NoKeys])"
    using step_trans [OF step_log step_log, of AIRunning NoKeys st] by simp
  ultimately show ?thesis using False
    by (intro exI [of _ "[Log NoKeys]"]) (simp add: failures_logged_def log_def)
next
  case True
  let ?st1 = "(log AIRunning st)\<lparr>env := ai_env a (env st)\<rparr>"
  obtain r st2 where e: "execAsync w ''node scripts/enhance-with-ai.js'' ?st1 = (r, st2)"
    by (cases "execAsync w ''node scripts/enhance-with-ai.js'' ?st1")
  have ai: "aiEnhancedUpdate w a st =
      (case (r, st2) of (ExecFail e, st2) \<Rightarrow> log (AIFailed e) st2
       | (ExecOk _, st2) \<Rightarrow> commitChanges w ai_title a st2)"
    using True e by (auto simp: aiEnhancedUpdate_def has_keys_def log_def ai_env_def Let_def)
  have "spec not_regen ?st1 (aiEnhancedUpdate w a st)"
  proof (cases r)
    case (ExecFail x)
    with ai show ?thesis by simp (rule spec_exec_fail [OF e [unfolded ExecFail]], simp_all)
  next
    case (ExecOk out)
    have "spec not_regen st2 (commitChanges w ai_title a st2)"
      by (rule spec_mono [OF commitChanges_spec]) simp
    with ai ExecOk show ?thesis by simp (rule spec_exec_ok [OF e [unfolded ExecOk]], simp_all)
  qed
  then obtain new where n: "step ?st1 (aiEnhancedUpdate w a st) new" "\<forall>e \<in> set new. not_regen e"
      "failures_logged new" "env (aiEnhancedUpdate w a st) = env ?st1"
    unfolding spec_def by blast
  have "step st ?st1 [Log AIRunning]" by (simp add: step_def log_def)
  from step_trans [OF this n(1)] n(2,3,4) True show ?thesis
    by (intro exI [of _ new]) (simp add: log_def)
qed

lemma quickUpdate_step:
  "\<exists>new. step st (quickUpdate w a st) (Log QuickRunning # new)
      \<and> (\<forall>e \<in> set new. not_ai e) \<and> failures_logged new
      \<and> env (quickUpdate w a st) = env st"
proof -
  from quickUpdate_spec [of st w a] obtain new where
    n: "step (log QuickRunning st) (quickUpdate w a st) new" "\<forall>e \<in> set new. not_ai e"
      "failures_logged new" "env (quickUpdate w a st) = env (log QuickRunning st)"
    unfolding spec_def by blast
  have "step st (log QuickRunning st) [Log QuickRunning]" by (rule step_log) simp
  from step_trans [OF this n(1)] n(2,3,4) show ?thesis
    by (intro exI [of _ new]) (simp add: log_def)
qed

lemma step_unique: "step st st' x \<Longrightarrow> step st st' y \<Longrightarrow> x = y"
  by (simp add: step_def)

lemma step_after_log: "step st st' (Log l # new) \<Longrightarrow> arrived (Log l) = [] \<Longrightarrow> step (log l st) st' new"
  by (simp add: step_def log_def)

lemma spec_events:
  assumes "spec P st st'" and "step st st' new" and "e \<in> set new"
  shows "P e"
proof -
  from assms(1) obtain new' where n: "step st st' new'" "\<forall>e \<in> set new'. P e"
    unfolding spec_def by blast
  from step_unique [OF assms(2) n(1)] n(2) assms(3) show ?thesis by simp
qed

lemma commit_step: "\<exists>new. step st (commitChanges w m a st) new \<and> (\<forall>e \<in> set new. commit_event e)"
  using commitChanges_spec [of st w m a] unfolding spec_def by blast

lemma commit_event_exec:
  "commit_event (Exec cmd r) \<Longrightarrow>
     cmd \<noteq> ''npm run sync:types'' \<and> cmd \<noteq> ''node scripts/generate-docs.js''
     \<and> cmd \<noteq> ''node scripts/enhance-with-ai.js''"
  by (simp add: commit_event_def)

lemma generate_spec:
  "spec not_ai st1
     (case execAsync w ''node scripts/generate-docs.js'' st1 of
        (ExecFail e, st2) \<Rightarrow> log (QuickFailed e) st2
      | (ExecOk _, st2) \<Rightarrow> commitChanges w quick_title a st2)"
proof -
  obtain r st2 where e: "execAsync w ''node scripts/generate-docs.js'' st1 = (r, st2)"
    by (cases "execAsync w ''node scripts/generate-docs.js'' st1")
  show ?thesis
  proof (cases r)
    case (ExecFail x)
    with e show ?thesis by simp (rule spec_exec_fail [OF e [unfolded ExecFail]], simp_all)
  next
    case (ExecOk out)
    have "spec not_ai st2 (commitChanges w quick_title a st2)"
      by (rule spec_mono [OF commitChanges_spec]) simp
    with e ExecOk show ?thesis by simp (rule spec_exec_ok [OF e [unfolded ExecOk]], simp_all)
  qed
qed

lemma enhance_step:
  "\<exists>r rest. step st (aiEnhancedUpdate w a st)
       (if has_keys (env st)
        then Log AIRunning # Exec ''node scripts/enhance-with-ai.js'' r # rest
        else [Log AIRunning, Log NoKeys])
     \<and> (\<forall>e \<in> set rest. \<forall>r'. e \<noteq> Exec ''node scripts/enhance-with-ai.js'' r')"
proof (cases "has_keys (env st)")
  case False
  then have "aiEnhancedUpdate w a st = log NoKeys (log AIRunning st)"
    by (simp add: aiEnhancedUpdate_def has_keys_def log_def)
  moreover have "step st (log NoKeys (log AIRunning st)) (Log AIRunning # [Log NoKeys])"
    using step_trans [OF step_log step_log, of AIRunning NoKeys st] by simp
  ultimately show ?thesis using False by (intro exI [of _ "ExecOk []"] exI [of _ "[]"]) simp
next
  case True
  let ?st1 = "(log AIRunning st)\<lparr>env := ai_env a (env st)\<rparr>"
  obtain r st2 where e: "execAsync w ''node scripts/enhance-with-ai.js'' ?st1 = (r, st2)"
    by (cases "execAsync w ''node scripts/enhance-with-ai.js'' ?st1")
  let ?f = "map (\<lambda>ev. Log (fs_log ev)) (arrivals w (trace ?st1 @ [Exec ''node scripts/enhance-with-ai.js'' r]))"
  have ai: "aiEnhancedUpdate w a st =
      (case (r, st2) of (ExecFail e, st2) \<Rightarrow> log (AIFailed e) st2
       | (ExecOk _, st2) \<Rightarrow> commitChanges w ai_title a st2)"
    using True e by (auto simp: aiEnhancedUpdate_def has_keys_def log_def ai_env_def Let_def)
  have s0: "step st ?st1 [Log AIRunning]" by (simp add: step_def log_def)
  note s1 = step_execAsync(1) [OF e]
  obtain c where c: "step st2 (aiEnhancedUpdate w a st) c"
      "\<forall>e \<in> set c. \<forall>r'. e \<noteq> Exec ''node scripts/enhance-with-ai.js'' r'"
  proof (cases r)
    case (ExecFail x)
    have "step st2 (log (AIFailed x) st2) [Log (AIFailed x)]" by (rule step_log) simp
    with ai ExecFail show ?thesis by (intro that [of "[Log (AIFailed x)]"]) simp_all
  next
    case (ExecOk out)
    obtain c where c: "step st2 (commitChanges w ai_title a st2) c" "\<forall>e \<in> set c. commit_event e"
      using commit_step by blast
    have "\<forall>e \<in> set c. \<forall>r'. e \<noteq> Exec ''node scripts/enhance-with-ai.js'' r'"
      using c(2) commit_event_exec by blast
    with c(1) ai ExecOk show ?thesis by (intro that [of c]) simp_all
  qed
  from step_trans [OF s0 step_trans [OF s1 c(1)]]
  have "step st (aiEnhancedUpdate w a st) (Log AIRunning # Exec ''node scripts/enhance-with-ai.js'' r # ?f @ c)"
    by simp
  moreover have "\<forall>e \<in> set (?f @ c). \<forall>r'. e \<noteq> Exec ''node scripts/enhance-with-ai.js'' r'"
    using c(2) by auto
  ultimately show ?thesis using True by (intro exI [of _ r] exI [of _ "?f @ c"]) simp
qed

lemma aiEnhancedUpdate_runs:
  assumes "step st (aiEnhancedUpdate w a st) (Log AIRunning # new)"
  shows "(\<exists>r. Exec ''node scripts/enhance-with-ai.js'' r \<in> set new) = has_keys (env st)"
proof -
  from enhance_step [of st w a] obtain r rest where
    s: "step st (aiEnhancedUpdate w a st)
       (if has_keys (env st)
        then Log AIRunning # Exec ''node scripts/enhance-with-ai.js'' r # rest
        else [Log AIRunning, Log NoKeys])" by blast
  from step_unique [OF assms s] show ?thesis by (auto split: if_splits)
qed

lemma generate_runs:
  assumes "step st1
     (case execAsync w ''node scripts/generate-docs.js'' st1 of
        (ExecFail e, st2) \<Rightarrow> log (QuickFailed e) st2
      | (ExecOk _, st2) \<Rightarrow> commitChanges w quick_title a st2) new"
  shows "(\<exists>r. Exec ''node scripts/generate-docs.js'' r \<in> set new)
     \<and> (\<forall>r. Exec ''npm run sync:types'' r \<notin> set new)"
proof -
  obtain r st2 where e: "execAsync w ''node scripts/generate-docs.js'' st1 = (r, st2)"
    by (cases "execAsync w ''node scripts/generate-docs.js'' st1")
  let ?x = "Exec ''node scripts/generate-docs.js'' r
              # map (\<lambda>ev. Log (fs_log ev)) (arrivals w (trace st1 @ [Exec ''node scripts/generate-docs.js'' r]))"
  note s1 = step_execAsync(1) [OF e]
  show ?thesis
  proof (cases r)
    case (ExecFail x)
    have "step st2 (log (QuickFailed x) st2) [Log (QuickFailed x)]" by (rule step_log) simp
    from step_trans [OF s1 this] have "step st1 (log (QuickFailed x) st2) (?x @ [Log (QuickFailed x)])" .
    moreover have "step st1 (log (QuickFailed x) st2) new" using assms e ExecFail by simp
    ultimately have "new = ?x @ [Log (QuickFailed x)]" by (rule step_unique [symmetric])
    then show ?thesis by auto
  next
    case (ExecOk out)
    obtain c where c: "step st2 (commitChanges w quick_title a st2) c" "\<forall>e \<in> set c. commit_event e"
      using commit_step by blast
    from step_trans [OF s1 c(1)] have "step st1 (commitChanges w quick_title a st2) (?x @ c)" .
    moreover have "step st1 (commitChanges w quick_title a st2) new" using assms e ExecOk by simp
    ultimately have n: "new = ?x @ c" by (rule step_unique [symmetric])
    have "Exec ''npm run sync:types'' r' \<notin> set c" for r'
      using c(2) commit_event_exec [of "''npm run sync:types''" r'] by blast
    with n show ?thesis by auto
  qed
qed

lemma quickUpdate_runs:
  assumes "step st (quickUpdate w a st) (Log QuickRunning # new)"
  shows "(\<exists>r. Exec ''node scripts/generate-docs.js'' r \<in> set new)
           = (\<forall>e. Exec ''npm run sync:types'' (ExecFail e) \<notin> set new)"
proof -
  let ?st0 = "log QuickRunning st"
  have s0: "step ?st0 (quickUpdate w a st) new" using assms by (rule step_after_log) simp
  show ?thesis
  proof (cases "types a")
    case False
    with s0 have "step ?st0
       (case execAsync w ''node scripts/generate-docs.js'' ?st0 of
          (ExecFail e, st2) \<Rightarrow> log (QuickFailed e) st2
        | (ExecOk _, st2) \<Rightarrow> commitChanges w quick_title a st2) new"
      by (simp add: quickUpdate_def)
    from generate_runs [OF this] show ?thesis by blast
  next
    case True
    obtain r st1 where e: "execAsync w ''npm run sync:types'' ?st0 = (r, st1)"
      by (cases "execAsync w ''npm run sync:types'' ?st0")
    let ?x = "Exec ''npm run sync:types'' r
              # map (\<lambda>ev. Log (fs_log ev)) (arrivals w (trace ?st0 @ [Exec ''npm run sync:types'' r]))"
    note s1 = step_execAsync(1) [OF e]
    show ?thesis
    proof (cases r)
      case (ExecFail x)
      have "step st1 (log (QuickFailed x) st1) [Log (QuickFailed x)]" by (rule step_log) simp
      from step_trans [OF s1 this] have "step ?st0 (log (QuickFailed x) st1) (?x @ [Log (QuickFailed x)])" .
      moreover have "step ?st0 (log (QuickFailed x) st1) new"
        using s0 e ExecFail True by (simp add: quickUpdate_def)
      ultimately have "new = ?x @ [Log (QuickFailed x)]" by (rule step_unique [symmetric])
      with ExecFail show ?thesis by auto
    next
      case (ExecOk out)
      let ?g = "case execAsync w ''node scripts/generate-docs.js'' st1 of
          (ExecFail e, st2) \<Rightarrow> log (QuickFailed e) st2
        | (ExecOk _, st2) \<Rightarrow> commitChanges w quick_title a st2"
      have q: "quickUpdate w a st = ?g" using e ExecOk True by (simp add: quickUpdate_def)
      obtain g where g: "step st1 ?g g"
        using generate_spec [of st1 w a] unfolding spec_def by blast
      from step_trans [OF s1 g] have "step ?st0 ?g (?x @ g)" .
      moreover have "step ?st0 ?g new" using s0 q by simp
      ultimately have n: "new = ?x @ g" by (rule step_unique [symmetric])
      from generate_runs [OF g] n ExecOk show ?thesis by auto
    qed
  qed
qed

lemma analyzeChanges_total: "\<exists>a. analyzeChanges ps = Inr a"
  using analyzeLoop_ok [of _ ps] unfolding analyzeChanges_def by blast

lemma process_batch:
  assumes "\<not> isProcessing st" and "pendingChanges st \<noteq> []"
  shows "\<exists>q ai a. analyzeChanges (pendingChanges st) = Inr a
      \<and> batch_trace w st = Log (Processing (length (pendingChanges st))) # Log QuickRunning # q @ ai
                             @ [Log UpdatedSuccessfully]
      \<and> (\<forall>e \<in> set q. not_ai e) \<and> (\<forall>e \<in> set ai. not_regen e)
      \<and> (aiUpdateThreshold st \<le> length (pendingChanges st) \<longrightarrow> (\<exists>rest. ai = Log AIRunning # rest))
      \<and> (\<not> aiUpdateThreshold st \<le> length (pendingChanges st) \<longrightarrow> ai = [])
      \<and> failures_logged (q @ ai)
      \<and> pendingChanges (processAccumulatedChanges w st) = fold set_add (concat (map arrived (batch_trace w st))) []
      \<and> \<not> isProcessing (processAccumulatedChanges w st)
      \<and> aiUpdateThreshold (processAccumulatedChanges w st) = aiUpdateThreshold st
      \<and> env (processAccumulatedChanges w st) =
          (if aiUpdateThreshold st \<le> length (pendingChanges st) \<and> has_keys (env st)
           then ai_env a (env st) else env st)
      \<and> ((\<exists>r. Exec ''node scripts/generate-docs.js'' r \<in> set q)
           = (\<forall>e. Exec ''npm run sync:types'' (ExecFail e) \<notin> set q))
      \<and> ((\<exists>r. Exec ''node scripts/enhance-with-ai.js'' r \<in> set ai)
           = (aiUpdateThreshold st \<le> length (pendingChanges st) \<and> has_keys (env st)))"
proof -
  let ?n = "length (pendingChanges st)"
  let ?st3 = "log (Processing ?n) (st\<lparr>isProcessing := True, pendingChanges := []\<rparr>)"
  obtain a where a: "analyzeChanges (pendingChanges st) = Inr a"
    using analyzeChanges_total by blast
  let ?st4 = "quickUpdate w a ?st3"
  let ?st5 = "if aiUpdateThreshold ?st4 \<le> ?n then aiEnhancedUpdate w a ?st4 else ?st4"
  have res: "processAccumulatedChanges w st = (log UpdatedSuccessfully ?st5)\<lparr>isProcessing := False\<rparr>"
    using assms a by (simp add: processAccumulatedChanges_def Let_def)
  obtain q where q: "step ?st3 ?st4 (Log QuickRunning # q)" "\<forall>e \<in> set q. not_ai e"
      "failures_logged q" "env ?st4 = env ?st3"
    using quickUpdate_step [of ?st3 w a] by blast
  have gq: "(\<exists>r. Exec ''node scripts/generate-docs.js'' r \<in> set q)
           = (\<forall>e. Exec ''npm run sync:types'' (ExecFail e) \<notin> set q)"
    using q(1) by (rule quickUpdate_runs)
  have thr: "aiUpdateThreshold ?st4 = aiUpdateThreshold st"
    using q(1) by (simp add: step_def log_def)
  have e4: "env ?st4 = env st" using q(4) by (simp add: log_def)
  obtain ai where ai: "step ?st4 ?st5 ai" "\<forall>e \<in> set ai. not_regen e" "failures_logged ai"
      "aiUpdateThreshold st \<le> ?n \<longrightarrow> (\<exists>rest. ai = Log AIRunning # rest)"
      "\<not> aiUpdateThreshold st \<le> ?n \<longrightarrow> ai = []"
      "env ?st5 = (if aiUpdateThreshold st \<le> ?n \<and> has_keys (env ?st4) then ai_env a (env ?st4) else env ?st4)"
      "(\<exists>r. Exec ''node scripts/enhance-with-ai.js'' r \<in> set ai)
           = (aiUpdateThreshold st \<le> ?n \<and> has_keys (env st))"
  proof (cases "aiUpdateThreshold st \<le> ?n")
    case True
    from aiEnhancedUpdate_spec [of ?st4 w a] obtain new where
      n: "step ?st4 (aiEnhancedUpdate w a ?st4) (Log AIRunning # new)" "\<forall>e \<in> set new. not_regen e"
      "failures_logged new"
      "env (aiEnhancedUpdate w a ?st4) = (if has_keys (env ?st4) then ai_env a (env ?st4) else env ?st4)"
      by blast
    have "(\<exists>r. Exec ''node scripts/enhance-with-ai.js'' r \<in> set new) = has_keys (env ?st4)"
      using n(1) by (rule aiEnhancedUpdate_runs)
    then have "(\<exists>r. Exec ''node scripts/enhance-with-ai.js'' r \<in> set (Log AIRunning # new))
           = (aiUpdateThreshold st \<le> ?n \<and> has_keys (env st))"
      using True e4 by simp
    with n True thr show ?thesis
      by (intro that [of "Log AIRunning # new"]) (simp_all add: failures_logged_def not_regen_def)
  next
    case False
    with thr show ?thesis by (intro that [of "[]"]) (simp_all add: step_refl failures_logged_def)
  qed
  have s3: "trace ?st3 = trace st @ [Log (Processing ?n)]" "pendingChanges ?st3 = []"
    by (simp_all add: log_def)
  have s5: "step ?st3 ?st5 ((Log QuickRunning # q) @ ai)" by (rule step_trans [OF q(1) ai(1)])
  have tr: "trace (processAccumulatedChanges w st)
      = trace st @ Log (Processing ?n) # Log QuickRunning # q @ ai @ [Log UpdatedSuccessfully]"
    using s5 s3 unfolding res by (simp add: step_def log_def)
  then have bt: "batch_trace w st = Log (Processing ?n) # Log QuickRunning # q @ ai @ [Log UpdatedSuccessfully]"
    by (simp add: batch_trace_def)
  have pc: "pendingChanges (processAccumulatedChanges w st) = fold set_add (concat (map arrived (batch_trace w st))) []"
    using s5 s3 unfolding res bt by (simp add: step_def log_def)
  have ip: "\<not> isProcessing (processAccumulatedChanges w st)" unfolding res by simp
  have th: "aiUpdateThreshold (processAccumulatedChanges w st) = aiUpdateThreshold st"
    using s5 unfolding res by (simp add: step_def log_def)
  have en: "env (processAccumulatedChanges w st) =
          (if aiUpdateThreshold st \<le> ?n \<and> has_keys (env st) then ai_env a (env st) else env st)"
    using ai(6) q(4) unfolding res by (simp add: log_def)
  have fl: "failures_logged (q @ ai)" using q(3) ai(3) by (rule fl_append)
  from a bt q(2) ai(2) ai(4) ai(5) fl pc ip th en gq ai(7) show ?thesis by blast
qed


lemma pending_defs:
  "pendingChanges one_pending = [''src/modules/sales/a.tsx'']"
  "pendingChanges two_pending = [''src/modules/sales/a.tsx'', ''src/lib/b.ts'']"
  "pendingChanges three_pending = [''src/modules/sales/a.tsx'', ''src/lib/b.ts'', ''src/components/c.tsx'']"
  "isProcessing one_pending = False" "isProcessing two_pending = False" "isProcessing three_pending = False"
  "aiUpdateThreshold one_pending = 3" "aiUpdateThreshold two_pending = 3" "aiUpdateThreshold three_pending = 3"
  by (simp_all add: one_pending_def two_pending_def three_pending_def new_updater_def
      handleFileChange_def log_def set_add_def)

text \<open>
  The set of pending paths never holds a path twice, so the number of distinct changed
  paths of a batch is the length that \<^verbatim>\<open>processAccumulatedChanges\<close> compares with the
  threshold.
\<close>

lemma pending_distinct:
  "distinct (pendingChanges st) \<Longrightarrow> distinct (pendingChanges (fold deliver evs st))"
proof (induction evs arbitrary: st)
  case Nil
  then show ?case by simp
next
  case (Cons ev evs)
  have "distinct (pendingChanges (deliver ev st))"
    using Cons.prems
    by (cases ev) (auto simp: handleFileChange_def handleFileDelete_def log_def set_add_def)
  from Cons.IH [OF this] show ?case by simp
qed





text \<open>
  Claim C3, as stated, fails: when the generator script fails in a batch of three paths,
  \<^verbatim>\<open>quickUpdate\<close> reports the failure and returns, and the enhancement step starts and
  runs the enhancer all the same.
\<close>

theorem enhancement_after_failed_regeneration:
  "batch_trace failing_generator three_pending =
    [Log (Processing 3), Log QuickRunning,
     Exec ''node scripts/generate-docs.js'' (ExecFail (Error ''generate-docs exited with code 1'')),
     Log (QuickFailed (Error ''generate-docs exited with code 1'')),
     Log AIRunning,
     Exec ''node scripts/enhance-with-ai.js'' (ExecOk []),
     Exec ''git status --porcelain'' (ExecOk []),
     Log UpdatedSuccessfully]"
  by code_simp

text \<open>
  Claim C3, amended. In every processed batch the events of the regeneration step all come
  before the events of the enhancement step: the trace of the batch splits into a first part,
  which holds the start of the regeneration step and no event of the enhancement step, and a
  second part without any event of the regeneration step. A failed regeneration does not
  abort the batch: whenever the threshold is reached, the second part begins with the start
  of the enhancement step.
\<close>

theorem regeneration_before_enhancement:
  assumes "\<not> isProcessing st" and "pendingChanges st \<noteq> []"
  shows "\<exists>pre post. batch_trace w st = pre @ post
      \<and> Log QuickRunning \<in> set pre
      \<and> (\<forall>e \<in> set pre. \<not> ai_event e)
      \<and> (\<forall>e \<in> set post. \<not> regen_event e)
      \<and> (aiUpdateThreshold st \<le> length (pendingChanges st) \<longrightarrow> (\<exists>rest. post = Log AIRunning # rest))"
proof -
  let ?n = "length (pendingChanges st)"
  from process_batch [OF assms, of w] obtain q ai where
    bt: "batch_trace w st = Log (Processing ?n) # Log QuickRunning # q @ ai @ [Log UpdatedSuccessfully]"
    and q: "\<forall>e \<in> set q. not_ai e" and ai: "\<forall>e \<in> set ai. not_regen e"
    and ai1: "aiUpdateThreshold st \<le> ?n \<longrightarrow> (\<exists>rest. ai = Log AIRunning # rest)"
    by blast
  let ?pre = "Log (Processing ?n) # Log QuickRunning # q"
  let ?post = "ai @ [Log UpdatedSuccessfully]"
  have "batch_trace w st = ?pre @ ?post" using bt by simp
  moreover have "Log QuickRunning \<in> set ?pre" by simp
  moreover have "\<forall>e \<in> set ?pre. \<not> ai_event e" using q by (auto simp: not_ai_def)
  moreover have "\<forall>e \<in> set ?post. \<not> regen_event e" using ai by (auto simp: not_regen_def)
  moreover have "aiUpdateThreshold st \<le> ?n \<longrightarrow> (\<exists>rest. ?post = Log AIRunning # rest)"
    using ai1 by auto
  ultimately show ?thesis by blast
qed

theorem regeneration_before_enhancement_witness:
  "\<exists>pre post. batch_trace failing_generator three_pending = pre @ post
      \<and> Log QuickRunning \<in> set pre
      \<and> (\<forall>e \<in> set pre. \<not> ai_event e)
      \<and> (\<forall>e \<in> set post. \<not> regen_event e)
      \<and> (\<exists>rest. post = Log AIRunning # rest)"
  using regeneration_before_enhancement [of three_pending failing_generator]
  by (simp add: pending_defs)





section \<open>Properties of the AI Enhancer\<close>

text \<open>
  A call whose first \<open>k\<close> requests are rejected as rate-limited and whose next request has
  any other outcome sends \<open>k + 1\<close> requests with the same prompt, waits 60 seconds \<open>k\<close>
  times, and returns what that last outcome gives. It touches no file.
\<close>

lemma callClaude_retries:
  assumes "\<forall>i<k. svc (length (requests st) + i) p = Rejected (Some 429)"
    and "svc (length (requests st) + k) p \<noteq> Rejected (Some 429)"
  shows "\<exists>st'. callClaude svc p st = Some (answer (svc (length (requests st) + k) p), st')
      \<and> requests st' = requests st @ replicate (Suc k) p
      \<and> waits st' = waits st @ replicate k 60000
      \<and> files st' = files st"
  using assms
proof (induction k arbitrary: st)
  case 0
  then show ?case
    by (subst callClaude.simps)
       (auto simp: answer_def say_def split: api_result.splits list.splits)
next
  case (Suc k)
  let ?st1 = "(say RateLimited (say (CallFailed (Some 429)) (st\<lparr>requests := requests st @ [p]\<rparr>)))
                    \<lparr>waits := waits st @ [60000]\<rparr>"
  have first: "svc (length (requests st)) p = Rejected (Some 429)"
    using Suc.prems(1) by (metis add.right_neutral zero_less_Suc)
  have len: "length (requests ?st1) = Suc (length (requests st))" by (simp add: say_def)
  have a: "\<forall>i<k. svc (length (requests ?st1) + i) p = Rejected (Some 429)"
    using Suc.prems(1) len by (metis Suc_less_eq add_Suc_right add_Suc)
  have b: "svc (length (requests ?st1) + k) p \<noteq> Rejected (Some 429)"
    using Suc.prems(2) len by simp
  from Suc.IH [OF a b] obtain st' where
    c: "callClaude svc p ?st1 = Some (answer (svc (length (requests ?st1) + k) p), st')"
    and r: "requests st' = requests ?st1 @ replicate (Suc k) p"
    and w: "waits st' = waits ?st1 @ replicate k 60000"
    and f: "files st' = files ?st1" by blast
  have "callClaude svc p st = callClaude svc p ?st1"
    using first by (subst callClaude.simps) simp
  with c r w f len show ?case
    by (intro exI [of _ st']) (simp add: say_def replicate_append_same)
qed

text \<open>
  A call returns only if some request is not rejected as rate-limited: against a service that
  rejects every request so, the call never returns.
\<close>

lemma callClaude_returns:
  assumes "callClaude svc p st = Some res"
  shows "\<exists>i. svc (length (requests st) + i) p \<noteq> Rejected (Some 429)"
proof (rule callClaude.raw_induct
    [where P = "\<lambda>svc p st res. \<exists>i. svc (length (requests st) + i) p \<noteq> Rejected (Some 429)",
     OF _ assms])
  fix cc :: "service \<Rightarrow> prompt \<Rightarrow> run \<Rightarrow> (string option \<times> run) option"
  fix svc p st res
  let ?st1 = "(say RateLimited (say (CallFailed (Some 429)) (st\<lparr>requests := requests st @ [p]\<rparr>)))
                    \<lparr>waits := waits st @ [60000]\<rparr>"
  assume IH: "\<And>svc p st res. cc svc p st = Some res
                 \<Longrightarrow> \<exists>i. svc (length (requests st) + i) p \<noteq> Rejected (Some 429)"
    and body: "(case svc (length (requests st)) p of
        Response [] \<Rightarrow> Some (None, say (CallFailed None) (st\<lparr>requests := requests st @ [p]\<rparr>))
      | Response (t # ts) \<Rightarrow> Some (Some t, st\<lparr>requests := requests st @ [p]\<rparr>)
      | Rejected status \<Rightarrow>
          if status = Some 429
          then cc svc p
                 ((say RateLimited (say (CallFailed status) (st\<lparr>requests := requests st @ [p]\<rparr>)))
                    \<lparr>waits := waits st @ [60000]\<rparr>)
          else Some (None, say (CallFailed status) (st\<lparr>requests := requests st @ [p]\<rparr>))) = Some res"
  show "\<exists>i. svc (length (requests st) + i) p \<noteq> Rejected (Some 429)"
  proof (cases "svc (length (requests st)) p = Rejected (Some 429)")
    case False
    then show ?thesis by (metis add.right_neutral)
  next
    case True
    with body have "cc svc p ?st1 = Some res" by simp
    from IH [OF this] obtain i where "svc (length (requests ?st1) + i) p \<noteq> Rejected (Some 429)"
      by blast
    then have "svc (length (requests st) + Suc i) p \<noteq> Rejected (Some 429)" by (simp add: say_def)
    then show ?thesis by blast
  qed
qed

lemma callClaude_never_returns:
  "\<forall>i. svc (length (requests st) + i) p = Rejected (Some 429) \<Longrightarrow> callClaude svc p st = None"
  using callClaude_returns [of svc p st] by (cases "callClaude svc p st") auto


text \<open>
  Claim C1, as stated, fails: when the retry is rate-limited again, the call is not given up.
  Against a service that rejects the first two requests as rate-limited and answers the
  third, \<^verbatim>\<open>enhanceModuleDocumentation\<close> sends the request three times, waits twice and
  writes the page.
\<close>

theorem second_rate_limit_is_retried:
  "enhanceModuleDocumentation limited_twice ''sales'' sales_docs = Some (None, sales_docs_enhanced)"
  by (simp add: enhanceModuleDocumentation_def analyzeModuleCode_def readModuleDoc_def
      existsSync_def readFileSync_def writeModuleDoc_def writeFileSync_def
      sales_docs_def sales_docs_enhanced_def limited_twice_def docPath_def overviewPath_def
      say_def callClaude.simps)

text \<open>
  Claim C1, amended. For a module whose page exists and whose source can be analysed: each
  time the service rejects the request as rate-limited, the enhancer waits 60 seconds and
  sends the same request again, however often that happens. The first outcome \<open>r\<close> that is
  not a rate limit ends the call: a text is written to the page of the module (one write),
  any other outcome leaves all files as they were. In both cases the method returns
  without an error and the loop goes on with the remaining modules.
\<close>

theorem rate_limit_retries:
  assumes "analyzeModuleCode (files st) m = Inr code"
    and "files st (docPath m) = Some (File doc)" and "doc \<noteq> []"
    and "\<forall>i<k. svc (length (requests st) + i) (ModulePrompt m code doc) = Rejected (Some 429)"
    and "svc (length (requests st) + k) (ModulePrompt m code doc) = r"
    and "r \<noteq> Rejected (Some 429)"
  shows "\<exists>st'. enhanceModuleDocumentation svc m st = Some (None, st')
     \<and> requests st' = requests st @ replicate (Suc k) (ModulePrompt m code doc)
     \<and> waits st' = waits st @ replicate k 60000
     \<and> files st' = (case r of
                      Response (t # ts) \<Rightarrow> if t = [] then files st else (files st)(docPath m \<mapsto> File t)
                    | _ \<Rightarrow> files st)
     \<and> enhanceModules svc (m # ms) st = enhanceModules svc ms st'"
proof -
  let ?p = "ModulePrompt m code doc"
  let ?st0 = "say (Enhancing m) st"
  have a: "\<forall>i<k. svc (length (requests ?st0) + i) ?p = Rejected (Some 429)"
    using assms(4) by (simp add: say_def)
  have b: "svc (length (requests ?st0) + k) ?p \<noteq> Rejected (Some 429)"
    using assms(5,6) by (simp add: say_def)
  from callClaude_retries [where svc = svc and st = ?st0 and p = ?p and k = k, OF a b] obtain st1 where
    c: "callClaude svc ?p ?st0 = Some (answer r, st1)"
    and rq: "requests st1 = requests st @ replicate (Suc k) ?p"
    and w: "waits st1 = waits st @ replicate k 60000"
    and f: "files st1 = files st"
    using assms(5) by (auto simp: say_def)
  have doc: "readModuleDoc (files ?st0) m = Inr doc"
    using assms(2) by (simp add: readModuleDoc_def existsSync_def readFileSync_def say_def)
  have code: "analyzeModuleCode (files ?st0) m = Inr code" using assms(1) by (simp add: say_def)
  have e: "enhanceModuleDocumentation svc m st =
      (case answer r of
         None \<Rightarrow> Some (None, st1)
       | Some t \<Rightarrow> if t = [] then Some (None, st1)
                   else Some (None, say (Enhanced m) (st1\<lparr>files := (files st)(docPath m \<mapsto> File t)\<rparr>)))"
    using doc code c assms(2,3) f
    by (simp add: enhanceModuleDocumentation_def Let_def writeModuleDoc_def writeFileSync_def
        split: option.splits)
  show ?thesis
  proof (cases "answer r")
    case None
    then have "(case r of Response (t # ts) \<Rightarrow> if t = [] then files st else (files st)(docPath m \<mapsto> File t)
                    | _ \<Rightarrow> files st) = files st"
      by (auto simp: answer_def split: api_result.splits list.splits)
    with None e rq w f show ?thesis by (intro exI [of _ st1]) simp
  next
    case (Some t)
    then obtain ts where r: "r = Response (t # ts)"
      by (auto simp: answer_def split: api_result.splits list.splits)
    show ?thesis
    proof (cases "t = []")
      case True
      with Some e rq w f r show ?thesis by (intro exI [of _ st1]) simp
    next
      case False
      with Some e rq w f r show ?thesis
        by (intro exI [of _ "say (Enhanced m) (st1\<lparr>files := (files st)(docPath m \<mapsto> File t)\<rparr>)"])
           (simp add: say_def)
    qed
  qed
qed

theorem rate_limit_retries_witness:
  "\<exists>st'. enhanceModuleDocumentation limited_once ''sales'' sales_docs = Some (None, st')
     \<and> requests st' = replicate 2 (ModulePrompt ''sales'' ModuleNotFound ''# Sales'')
     \<and> waits st' = [60000]
     \<and> files st' = (files sales_docs)(docPath ''sales'' \<mapsto> File ''# Sales, enhanced'')
     \<and> enhanceModules limited_once [''sales'', ''school''] sales_docs
         = enhanceModules limited_once [''school''] st'"
proof -
  have a: "analyzeModuleCode (files sales_docs) ''sales'' = Inr ModuleNotFound"
    by (simp add: analyzeModuleCode_def existsSync_def sales_docs_def docPath_def overviewPath_def)
  have b: "files sales_docs (docPath ''sales'') = Some (File ''# Sales'')"
    by (simp add: sales_docs_def docPath_def overviewPath_def)
  have c: "''# Sales'' \<noteq> []" by simp
  have d: "\<forall>i<1. limited_once (length (requests sales_docs) + i)
             (ModulePrompt ''sales'' ModuleNotFound ''# Sales'') = Rejected (Some 429)"
    by (simp add: limited_once_def sales_docs_def)
  have e: "limited_once (length (requests sales_docs) + 1)
             (ModulePrompt ''sales'' ModuleNotFound ''# Sales'') = Response [''# Sales, enhanced'']"
    by (simp add: limited_once_def sales_docs_def)
  have f: "Response [''# Sales, enhanced''] \<noteq> Rejected (Some 429)" by simp
  from rate_limit_retries [where svc = limited_once and st = sales_docs and m = "''sales''"
      and code = ModuleNotFound and doc = "''# Sales''" and k = 1
      and r = "Response [''# Sales, enhanced'']" and ms = "[''school'']", OF a b c d e f]
  show ?thesis
    by (simp add: sales_docs_def numeral_2_eq_2)
qed

lemma analyzeEntities_files:
  assumes "list_all (\<lambda>f. case fs (path_join ep f) of Some (File c) \<Rightarrow> True | _ \<Rightarrow> False) fs'"
  shows "\<exists>infos. analyzeEntities fs ep fs' = Inr infos"
  using assms
proof (induction fs')
  case Nil
  show ?case by simp
next
  case (Cons f rest)
  from Cons.prems obtain c where c: "fs (path_join ep f) = Some (File c)"
    by (auto split: option.splits node.splits)
  from Cons.prems Cons.IH obtain infos where "analyzeEntities fs ep rest = Inr infos" by auto
  with c show ?case by (simp add: readFileSync_def)
qed

lemma analyzeModuleCode_layout:
  assumes "module_layout fs m"
  shows "\<exists>code. analyzeModuleCode fs m = Inr code"
proof -
  let ?mp = "''../../agves_app/src/modules/'' @ m"
  let ?ep = "path_join ?mp ''entities''"
  show ?thesis
  proof (cases "fs ?ep")
    case None
    then show ?thesis by (simp add: analyzeModuleCode_def Let_def existsSync_def)
  next
    case (Some n)
    show ?thesis
    proof (cases n)
      case (File c)
      with Some assms show ?thesis by (simp add: module_layout_def Let_def)
    next
      case (Dir entries)
      with Some assms have "list_all (\<lambda>f. case fs (path_join ?ep f) of Some (File c) \<Rightarrow> True | _ \<Rightarrow> False)
            (filter (\<lambda>f. endsWith f ''.tsx'') entries)"
        by (simp add: module_layout_def Let_def)
      from analyzeEntities_files [OF this] obtain infos where
        "analyzeEntities fs ?ep (filter (\<lambda>f. endsWith f ''.tsx'') entries) = Inr infos" by blast
      with Some Dir show ?thesis
        by (simp add: analyzeModuleCode_def Let_def existsSync_def readdirSync_def)
    qed
  qed
qed

text \<open>
  Claim C7. For a module without an existing page (the page is missing, or empty), in a
  source tree of the layout above, the enhancer returns without an error; it writes no file,
  creates no page and sends no request, and reports on the console that it skips the module.
\<close>

theorem missing_page_is_skipped:
  assumes "module_layout (files st) m"
    and "files st (docPath m) = None \<or> files st (docPath m) = Some (File [])"
  shows "\<exists>st'. enhanceModuleDocumentation svc m st = Some (None, st')
     \<and> files st' = files st \<and> requests st' = requests st \<and> waits st' = waits st
     \<and> console st' = console st @ [Enhancing m, NoExistingDoc m]"
proof -
  from analyzeModuleCode_layout [OF assms(1)] obtain code where
    "analyzeModuleCode (files st) m = Inr code" by blast
  moreover have "readModuleDoc (files st) m = Inr []"
    using assms(2) by (auto simp: readModuleDoc_def existsSync_def readFileSync_def)
  ultimately show ?thesis
    by (simp add: enhanceModuleDocumentation_def Let_def say_def)
qed

theorem missing_page_is_skipped_witness:
  "(\<exists>st'. enhanceModuleDocumentation limited_once ''sales'' sales_source = Some (None, st')
     \<and> files st' = files sales_source \<and> requests st' = [] \<and> waits st' = []
     \<and> console st' = [Enhancing ''sales'', NoExistingDoc ''sales''])
   \<and> (\<exists>st'. enhanceModuleDocumentation limited_once ''sales'' no_docs = Some (None, st')
     \<and> files st' = files no_docs \<and> requests st' = [] \<and> waits st' = [])"
proof -
  have a: "module_layout (files sales_source) ''sales''"
    by (simp add: module_layout_def sales_source_def path_join_def endsWith_def)
  have b: "files sales_source (docPath ''sales'') = None \<or> files sales_source (docPath ''sales'') = Some (File [])"
    by (simp add: sales_source_def docPath_def)
  have c: "module_layout (files no_docs) ''sales''"
    by (simp add: module_layout_def no_docs_def)
  have d: "files no_docs (docPath ''sales'') = None \<or> files no_docs (docPath ''sales'') = Some (File [])"
    by (simp add: no_docs_def)
  have r: "requests sales_source = []" "waits sales_source = []" "console sales_source = []"
    "requests no_docs = []" "waits no_docs = []" "console no_docs = []"
    by (simp_all add: sales_source_def no_docs_def)
  from missing_page_is_skipped [OF a b, of limited_once] missing_page_is_skipped [OF c d, of limited_once]
  show ?thesis by (auto simp: r)
qed

text \<open>
  The layout matters: the source of the module is analysed before the page is looked up, and
  \<^verbatim>\<open>readdirSync\<close> raises on an \<^verbatim>\<open>entities\<close> path that is a regular file.
\<close>

lemma unreadable_module_raises:
  "\<not> module_layout (files entities_is_a_file) ''sales''
   \<and> enhanceModuleDocumentation limited_once ''sales'' entities_is_a_file
       = Some (Some ENOTDIR, say (Enhancing ''sales'') entities_is_a_file)"
  by (simp add: enhanceModuleDocumentation_def analyzeModuleCode_def existsSync_def module_layout_def
      readdirSync_def path_join_def entities_is_a_file_def docPath_def say_def)

text \<open>
  Claim C9. When the architecture overview exists, enhancing it with insights \<open>i\<close> replaces
  its content \<open>c\<close> by \<open>c\<close> followed by the heading \<^verbatim>\<open>## AI-Generated Insights\<close> and
  \<open>i\<close>, so the old content is a prefix of the new one. When the page does not exist,
  nothing is written and the state is unchanged.
\<close>

theorem architecture_overview_append:
  "(files st overviewPath = Some (File c) \<and> i \<noteq> [] \<longrightarrow>
      (\<exists>st'. enhanceArchitectureOverview (Some i) st = (None, st')
         \<and> files st' = (files st)
              (overviewPath \<mapsto> File (c @ ''\<newline>\<newline>## AI-Generated Insights\<newline>\<newline>'' @ i))))
   \<and> (files st overviewPath = None \<longrightarrow> enhanceArchitectureOverview ins st = (None, st))"
  by (auto simp: enhanceArchitectureOverview_def existsSync_def readFileSync_def
      writeFileSync_def Let_def say_def split: option.splits)

theorem architecture_overview_append_witness:
  "(\<exists>st'. enhanceArchitectureOverview (Some ''Use events.'') sales_docs = (None, st')
      \<and> files st' overviewPath
          = Some (File ''# Architecture\<newline>\<newline>## AI-Generated Insights\<newline>\<newline>Use events.''))
   \<and> enhanceArchitectureOverview (Some ''Use events.'') no_docs = (None, no_docs)"
proof -
  have a: "files sales_docs overviewPath = Some (File ''# Architecture'') \<and> ''Use events.'' \<noteq> []"
    by (simp add: sales_docs_def)
  have b: "files no_docs overviewPath = None" by (simp add: no_docs_def)
  from architecture_overview_append [of sales_docs "''# Architecture''" "''Use events.''"]
    architecture_overview_append [of no_docs _ _ "Some ''Use events.''"] a b
  show ?thesis by auto
qed

text \<open>
  Claim C10. The enhancer's flag is true exactly when \<^verbatim>\<open>TYPES_CHANGED\<close> is set to a
  non-empty string, so the value \<^verbatim>\<open>false\<close> counts as true. The watcher sets the variable
  to \<^verbatim>\<open>true\<close> or to the empty string, and the enhancer started from that environment
  reads the watcher's flag back.
\<close>

theorem types_flag_truthiness:
  assumes "env_truthy (env st ''ANTHROPIC_API_KEY'')"
  shows "(\<exists>enh. new_enhancer (env st) = Inr enh
            \<and> typesChanged enh = (\<exists>v. env st ''TYPES_CHANGED'' = Some v \<and> v \<noteq> []))
     \<and> (\<exists>enh. new_enhancer ((env st)(''TYPES_CHANGED'' \<mapsto> ''false'')) = Inr enh \<and> typesChanged enh)
     \<and> (\<exists>enh. new_enhancer (env (aiEnhancedUpdate w a st)) = Inr enh \<and> typesChanged enh = types a)
     \<and> env (aiEnhancedUpdate w a st) ''TYPES_CHANGED'' = Some (if types a then ''true'' else [])"
proof -
  have k: "has_keys (env st)" using assms by (simp add: has_keys_def)
  from aiEnhancedUpdate_spec [of st w a] k
  have e: "env (aiEnhancedUpdate w a st) = ai_env a (env st)" by auto
  have 1: "\<exists>enh. new_enhancer (env st) = Inr enh
            \<and> typesChanged enh = (\<exists>v. env st ''TYPES_CHANGED'' = Some v \<and> v \<noteq> [])"
    using assms by (cases "env st ''TYPES_CHANGED''") (simp_all add: new_enhancer_def env_truthy_def)
  have 2: "\<exists>enh. new_enhancer ((env st)(''TYPES_CHANGED'' \<mapsto> ''false'')) = Inr enh \<and> typesChanged enh"
    using assms by (simp add: new_enhancer_def env_truthy_def)
  have 3: "\<exists>enh. new_enhancer (env (aiEnhancedUpdate w a st)) = Inr enh \<and> typesChanged enh = types a"
    using assms unfolding e by (simp add: new_enhancer_def env_truthy_def ai_env_def)
  have 4: "env (aiEnhancedUpdate w a st) ''TYPES_CHANGED'' = Some (if types a then ''true'' else [])"
    unfolding e by (simp add: ai_env_def)
  from 1 2 3 4 show ?thesis by blast
qed

theorem types_flag_truthiness_witness:
  "(\<exists>enh. new_enhancer (env three_pending) = Inr enh \<and> \<not> typesChanged enh)
   \<and> (\<exists>enh. new_enhancer ((env three_pending)(''TYPES_CHANGED'' \<mapsto> ''false'')) = Inr enh
         \<and> typesChanged enh)
   \<and> env (aiEnhancedUpdate succeeding
            \<lparr>analysis.modules = [''sales''], types = False, components = False, services = False\<rparr>
            three_pending) ''TYPES_CHANGED'' = Some []"
proof -
  have e: "env three_pending = [''ANTHROPIC_API_KEY'' \<mapsto> ''key'']"
    by (simp add: three_pending_def two_pending_def new_updater_def handleFileChange_def log_def)
  have "env_truthy (env three_pending ''ANTHROPIC_API_KEY'')" by (simp add: e env_truthy_def)
  from types_flag_truthiness [OF this, of succeeding
      "\<lparr>analysis.modules = [''sales''], types = False, components = False, services = False\<rparr>"]
  show ?thesis by (simp add: e)
qed


section \<open>Properties of the Doc Generator\<close>



































lemma capitalize_school: "capitalize ''school'' = ''School''"
  by (simp add: capitalize_def toUpperChar_def)

lemma update_before: "update_navigation one_module manifest_before = Inr (Some manifest_after)"
  by (simp add: update_navigation_def manifest_before_def manifest_after_def)


lemma manifests_differ: "manifest_before \<noteq> manifest_after"
  by (simp add: manifest_before_def manifest_after_def api_groups_def)


text \<open>
  The first run of the concrete example succeeds: it creates the directories, writes the
  pages and prints the updated manifest.
\<close>

lemma generator_example:
  "fst (generateAllDocs two_documents one_module manifest_only) = 0
   \<and> snd (generateAllDocs two_documents one_module manifest_only) ''./docs.json''
       = Some (File text_after)
   \<and> snd (generateAllDocs two_documents one_module manifest_only) ''./api-reference/school/student.mdx''
       = Some (File (generateEntityApiDoc ''school'' ''student''))
   \<and> snd (generateAllDocs two_documents one_module manifest_only) ''./api-reference/school''
       = Some (Dir [])"
  by (simp add: generateAllDocs_def createDirectoryStructure_def generateArchitectureDocs_def
      generateModuleDocs_def generateComponentDocs_def generateApiReference_def
      one_module_def manifest_only_def path_join_def existsSync_def mkdirSync_def
      writeFileSync_def updateDocsConfig_def readFileSync_def two_documents_def
      update_before [unfolded one_module_def] manifests_differ)



end
